theory Spec2Isabelle
  imports Complex_Main
begin

section \<open>Data model (schema/PhysicsState.js)\<close>

text \<open>
  JavaScript numbers are modelled as reals (exact arithmetic, no NaN, no infinities, no
  rounding); timestamps, which come from \<^verbatim>\<open>Date.now()\<close>, are integers
  (milliseconds). Every handler reads the clock through one parameter \<open>now\<close>. The values
  of \<^verbatim>\<open>Math.random()\<close> are parameters as well. Strings are \<^typ>\<open>string\<close>; the
  empty string is the falsy string of the source.
\<close>

record Vector =
  v_x :: real
  v_y :: real

record Shape =
  s_id :: string
  s_x :: real
  s_y :: real
  s_angle :: real
  s_velocity :: Vector
  s_lastUpdate :: int
  s_color :: string

record Player =
  p_id :: string
  p_shapes :: "Shape list"
  p_disconnected :: bool
  p_lastActivity :: int

text \<open>
  \<^verbatim>\<open>MapSchema\<close> iterates in insertion order and holds each key once: an association
  list, read with \<^const>\<open>map_of\<close>.
\<close>

record PhysicsState =
  players :: "(string \<times> Player) list"
  serverTime :: int
  boundaryWidth :: real
  boundaryHeight :: real

subsection \<open>Shape\<close>

text \<open>\<^verbatim>\<open>new Shape(id, x, y)\<close>; the colour is the result of \<^verbatim>\<open>generateRandomColor()\<close>.\<close>

definition newShape :: "string \<Rightarrow> real \<Rightarrow> real \<Rightarrow> int \<Rightarrow> string \<Rightarrow> Shape" where
  "newShape i x y now col =
     \<lparr>s_id = i, s_x = x, s_y = y, s_angle = 0, s_velocity = \<lparr>v_x = 0, v_y = 0\<rparr>,
      s_lastUpdate = now, s_color = col\<rparr>"

text \<open>
  \<^verbatim>\<open>this.angle = angle || this.angle\<close>: an absent angle and the angle 0 are both falsy
  and keep the old angle.
\<close>

definition setPosition :: "Shape \<Rightarrow> real \<Rightarrow> real \<Rightarrow> real option \<Rightarrow> int \<Rightarrow> Shape" where
  "setPosition s x y angle now =
     s\<lparr>s_x := x, s_y := y,
       s_angle := (case angle of None \<Rightarrow> s_angle s
                   | Some a \<Rightarrow> if a = 0 then s_angle s else a),
       s_lastUpdate := now\<rparr>"

definition setVelocity :: "Shape \<Rightarrow> real \<Rightarrow> real \<Rightarrow> Shape" where
  "setVelocity s x y = s\<lparr>s_velocity := \<lparr>v_x = x, v_y = y\<rparr>\<rparr>"

subsection \<open>Player\<close>

definition newPlayer :: "string \<Rightarrow> int \<Rightarrow> Player" where
  "newPlayer i now =
     \<lparr>p_id = i, p_shapes = [], p_disconnected = False, p_lastActivity = now\<rparr>"

definition addShape :: "Player \<Rightarrow> Shape \<Rightarrow> int \<Rightarrow> Player" where
  "addShape p s now = p\<lparr>p_shapes := p_shapes p @ [s], p_lastActivity := now\<rparr>"

text \<open>\<^verbatim>\<open>findIndex\<close> and \<^verbatim>\<open>splice(index, 1)\<close>: the first shape with the id goes.\<close>

fun removeFirst :: "string \<Rightarrow> Shape list \<Rightarrow> Shape list" where
  "removeFirst i [] = []"
| "removeFirst i (s # ss) = (if s_id s = i then ss else s # removeFirst i ss)"

definition hasShape :: "string \<Rightarrow> Shape list \<Rightarrow> bool" where
  "hasShape i ss = (find (\<lambda>s. s_id s = i) ss \<noteq> None)"

definition removeShape :: "Player \<Rightarrow> string \<Rightarrow> int \<Rightarrow> Player" where
  "removeShape p i now =
     (if hasShape i (p_shapes p)
      then p\<lparr>p_shapes := removeFirst i (p_shapes p), p_lastActivity := now\<rparr>
      else p)"

definition setConnectionStatus :: "Player \<Rightarrow> bool \<Rightarrow> int \<Rightarrow> Player" where
  "setConnectionStatus p conn now =
     p\<lparr>p_disconnected := \<not> conn, p_lastActivity := now\<rparr>"

subsection \<open>PhysicsState\<close>

definition getPlayer :: "PhysicsState \<Rightarrow> string \<Rightarrow> Player option" where
  "getPlayer st pid = map_of (players st) pid"

text \<open>A player object is shared by reference; mutating it is rewriting its entry.\<close>

definition modifyPlayer :: "string \<Rightarrow> (Player \<Rightarrow> Player) \<Rightarrow> PhysicsState \<Rightarrow> PhysicsState" where
  "modifyPlayer pid f st =
     st\<lparr>players := map (\<lambda>(k, p). if k = pid then (k, f p) else (k, p)) (players st)\<rparr>"

definition createPlayer :: "PhysicsState \<Rightarrow> string \<Rightarrow> int \<Rightarrow> Player \<times> PhysicsState" where
  "createPlayer st pid now =
     (case getPlayer st pid of
        Some p \<Rightarrow> (p, st)
      | None \<Rightarrow> (newPlayer pid now, st\<lparr>players := players st @ [(pid, newPlayer pid now)]\<rparr>))"

definition removePlayer :: "PhysicsState \<Rightarrow> string \<Rightarrow> bool \<times> PhysicsState" where
  "removePlayer st pid =
     (if getPlayer st pid \<noteq> None
      then (True, st\<lparr>players := filter (\<lambda>(k, p). k \<noteq> pid) (players st)\<rparr>)
      else (False, st))"

definition markPlayerConnected :: "PhysicsState \<Rightarrow> string \<Rightarrow> bool \<Rightarrow> int \<Rightarrow> bool \<times> PhysicsState" where
  "markPlayerConnected st pid conn now =
     (case getPlayer st pid of
        Some p \<Rightarrow> (True, modifyPlayer pid (\<lambda>q. setConnectionStatus q conn now) st)
      | None \<Rightarrow> (False, st))"

text \<open>
  \<^verbatim>\<open>cleanupInactivePlayers(maxInactiveTime)\<close>: first the ids of the players to remove are
  collected, then each is removed; the count is the number of ids collected.
\<close>

definition inactive :: "int \<Rightarrow> int \<Rightarrow> Player \<Rightarrow> bool" where
  "inactive maxInactiveTime now p \<longleftrightarrow>
     p_disconnected p \<and> now - p_lastActivity p > maxInactiveTime"

definition playersToRemove :: "PhysicsState \<Rightarrow> int \<Rightarrow> int \<Rightarrow> string list" where
  "playersToRemove st maxInactiveTime now =
     map fst (filter (\<lambda>(k, p). inactive maxInactiveTime now p) (players st))"

definition cleanupInactivePlayers :: "PhysicsState \<Rightarrow> int \<Rightarrow> int \<Rightarrow> nat \<times> PhysicsState" where
  "cleanupInactivePlayers st maxInactiveTime now =
     (let ids = playersToRemove st maxInactiveTime now
      in (length ids, fold (\<lambda>k s. snd (removePlayer s k)) ids st))"

text \<open>
  \<^verbatim>\<open>`${playerId}_${Date.now()}_${Math.floor(Math.random() * 1000)}`\<close>: integers print
  in decimal.
\<close>

function natToString :: "nat \<Rightarrow> string" where
  "natToString n =
     (if n < 10 then [''0123456789'' ! n]
      else natToString (n div 10) @ [''0123456789'' ! (n mod 10)])"
  by pat_completeness auto
termination
  by (relation "measure id") auto

declare natToString.simps [simp del]

definition intToString :: "int \<Rightarrow> string" where
  "intToString i = (if i < 0 then CHR ''-'' # natToString (nat (- i)) else natToString (nat i))"

text \<open>
  The values a shape creation draws: \<^verbatim>\<open>Math.random()\<close> for the id suffix, then for
  the x coordinate, and the colour that \<^verbatim>\<open>generateRandomColor()\<close> returns.
\<close>

record Entropy =
  r_id :: real
  r_x :: real
  r_color :: string

definition freshShapeId :: "string \<Rightarrow> int \<Rightarrow> Entropy \<Rightarrow> string" where
  "freshShapeId playerId now e =
     playerId @ ''_'' @ intToString now @ ''_'' @ intToString \<lfloor>r_id e * 1000\<rfloor>"

definition createShapeForPlayer ::
  "PhysicsState \<Rightarrow> string \<Rightarrow> string option \<Rightarrow> int \<Rightarrow> Entropy \<Rightarrow> Shape option \<times> PhysicsState" where
  "createShapeForPlayer st playerId customShapeId now e =
     (case getPlayer st playerId of
        None \<Rightarrow> (None, st)
      | Some player \<Rightarrow>
          (let shapeId = (case customShapeId of
                            None \<Rightarrow> freshShapeId playerId now e
                          | Some c \<Rightarrow> if c = [] then freshShapeId playerId now e else c);
               x = r_x e * (boundaryWidth st - 100) + 50;
               y = boundaryHeight st - 50;
               shape = newShape shapeId x y now (r_color e)
           in (Some shape, modifyPlayer playerId (\<lambda>p. addShape p shape now) st)))"

section \<open>The room (rooms/PhysicsRoom.js)\<close>

text \<open>
  An inbound \<^verbatim>\<open>physics_action\<close> payload. A field that is absent or not of the type the
  handler tests for is \<open>None\<close> (the empty string for \<^verbatim>\<open>type\<close> and \<^verbatim>\<open>shapeId\<close>);
  a velocity object, when present, has numeric components.
\<close>

record Action =
  a_type :: string
  a_shapeId :: string
  a_x :: "real option"
  a_y :: "real option"
  a_angle :: "real option"
  a_velocity :: "Vector option"

text \<open>One element of the \<^verbatim>\<open>shapes\<close> array of a \<^verbatim>\<open>shape_update\<close> message.\<close>

record ShapeData =
  d_id :: string
  d_x :: "real option"
  d_y :: "real option"
  d_angle :: "real option"
  d_velocity :: "Vector option"

text \<open>
  What \<^verbatim>\<open>this.broadcast\<close> sends: the message, and for a relayed action the session
  it is not sent to (\<^verbatim>\<open>except: client\<close>).
\<close>

datatype Broadcast =
    PhysicsActionMsg (b_playerId: string) (b_shapeId: string) (b_action: Action)
      (b_timestamp: int) (b_except: "string option")
  | PlayerRemoved string
  | BlockColorChanged string string

record PhysicsRoom =
  state :: PhysicsState
  playerIdToSessionId :: "string \<rightharpoonup> string"
  sessionIdToPlayerId :: "string \<rightharpoonup> string"
  lastActivityTime :: int
  outOfBoundsCheckCounter :: real
  cleanupCounter :: real

definition MAX_SHAPES_PER_PLAYER :: nat where
  "MAX_SHAPES_PER_PLAYER = 5"

text \<open>The shape a handler found with \<^verbatim>\<open>find\<close> is mutated in place: the first with the id.\<close>

fun updateFirst :: "string \<Rightarrow> (Shape \<Rightarrow> Shape) \<Rightarrow> Shape list \<Rightarrow> Shape list" where
  "updateFirst i f [] = []"
| "updateFirst i f (s # ss) = (if s_id s = i then f s # ss else s # updateFirst i f ss)"

subsection \<open>onJoin\<close>

text \<open>
  The loop that removes the extra shapes of a reconnecting player reads
  \<^verbatim>\<open>existingPlayer.shapes[i]\<close> from the array it is shrinking.
\<close>

function removeExtras :: "nat \<Rightarrow> Player \<Rightarrow> int \<Rightarrow> Player" where
  "removeExtras i p now =
     (if i < length (p_shapes p)
      then removeExtras (Suc i) (removeShape p (s_id (p_shapes p ! i)) now) now
      else p)"
  by pat_completeness auto
termination
proof (relation "measure (\<lambda>(i, p, now). length (p_shapes p) - i)")
  show "wf (measure (\<lambda>(i, p, now). length (p_shapes p) - i))" by simp
next
  fix i :: nat and p :: Player and now :: int
  assume less: "i < length (p_shapes p)"
  have shrink: "length (removeFirst k ss) \<le> length ss" for k ss
    by (induction ss) auto
  have "length (p_shapes (removeShape p (s_id (p_shapes p ! i)) now)) \<le> length (p_shapes p)"
    by (simp add: removeShape_def shrink)
  with less show "((Suc i, removeShape p (s_id (p_shapes p ! i)) now, now), (i, p, now))
      \<in> measure (\<lambda>(i, p, now). length (p_shapes p) - i)"
    by simp
qed

declare removeExtras.simps [simp del]

definition bindSession :: "PhysicsRoom \<Rightarrow> string \<Rightarrow> string \<Rightarrow> PhysicsRoom" where
  "bindSession r playerId sessionId =
     r\<lparr>playerIdToSessionId := (playerIdToSessionId r)(playerId \<mapsto> sessionId),
       sessionIdToPlayerId := (sessionIdToPlayerId r)(sessionId \<mapsto> playerId)\<rparr>"

definition reconnect :: "PhysicsRoom \<Rightarrow> string \<Rightarrow> string \<Rightarrow> int \<Rightarrow> Entropy \<Rightarrow> PhysicsRoom" where
  "reconnect r sessionId playerId now e =
     (let st1 = snd (markPlayerConnected (state r) playerId True now);
          r1 = bindSession (r\<lparr>state := st1\<rparr>) playerId sessionId
      in case getPlayer st1 playerId of
           None \<Rightarrow> r1
         | Some existingPlayer \<Rightarrow>
             if length (p_shapes existingPlayer) = 0
             then r1\<lparr>state := snd (createShapeForPlayer st1 playerId None now e)\<rparr>
             else if length (p_shapes existingPlayer) > 1
             then r1\<lparr>state := modifyPlayer playerId (\<lambda>p. removeExtras 1 p now) st1\<rparr>
             else r1)"

definition joinNew :: "PhysicsRoom \<Rightarrow> string \<Rightarrow> string \<Rightarrow> int \<Rightarrow> Entropy \<Rightarrow> PhysicsRoom" where
  "joinNew r sessionId playerId now e =
     (case createPlayer (state r) playerId now of
        (player, st1) \<Rightarrow>
          (let r1 = bindSession (r\<lparr>state := st1\<rparr>) playerId sessionId
           in if length (p_shapes player) = 0
              then r1\<lparr>state := snd (createShapeForPlayer st1 playerId None now e)\<rparr>
              else r1))"

text \<open>
  \<^verbatim>\<open>onJoin(client, options)\<close>: \<open>optPlayerId\<close> is \<^verbatim>\<open>options.playerId\<close>. A join is a
  reconnection when a player id is supplied and a player with that id is in the store.
\<close>

definition onJoin ::
  "PhysicsRoom \<Rightarrow> string \<Rightarrow> string option \<Rightarrow> int \<Rightarrow> Entropy \<Rightarrow> PhysicsRoom \<times> Broadcast list" where
  "onJoin r sessionId optPlayerId now e =
     (let r0 = r\<lparr>lastActivityTime := now\<rparr>
      in case optPlayerId of
           None \<Rightarrow> (joinNew r0 sessionId sessionId now e, [])
         | Some playerId \<Rightarrow>
             if playerId = [] then (joinNew r0 sessionId sessionId now e, [])
             else if getPlayer (state r0) playerId \<noteq> None
             then (reconnect r0 sessionId playerId now e, [])
             else (joinNew r0 sessionId playerId now e, []))"

subsection \<open>onLeave\<close>

function removeAllShapes :: "Player \<Rightarrow> int \<Rightarrow> Player" where
  "removeAllShapes p now =
     (case p_shapes p of
        [] \<Rightarrow> p
      | s # ss \<Rightarrow> removeAllShapes (removeShape p (s_id s) now) now)"
  by pat_completeness auto
termination
  by (relation "measure (\<lambda>(p, now). length (p_shapes p))")
     (auto simp: removeShape_def hasShape_def)

declare removeAllShapes.simps [simp del]

definition onLeave :: "PhysicsRoom \<Rightarrow> string \<Rightarrow> int \<Rightarrow> PhysicsRoom \<times> Broadcast list" where
  "onLeave r sessionId now =
     (let r0 = r\<lparr>lastActivityTime := now\<rparr>
      in case sessionIdToPlayerId r0 sessionId of
           None \<Rightarrow> (r0, [])
         | Some playerId \<Rightarrow>
             if playerId = [] then (r0, [])
             else
               (let st1 = (case getPlayer (state r0) playerId of
                             None \<Rightarrow> state r0
                           | Some player \<Rightarrow>
                               snd (removePlayer
                                 (modifyPlayer playerId (\<lambda>p. removeAllShapes p now) (state r0))
                                 playerId))
                in (r0\<lparr>state := st1,
                       sessionIdToPlayerId := (sessionIdToPlayerId r0)(sessionId := None),
                       playerIdToSessionId := (playerIdToSessionId r0)(playerId := None)\<rparr>,
                    [PlayerRemoved playerId])))"

subsection \<open>update\<close>

text \<open>The remainder operator of JavaScript takes the sign of the dividend.\<close>

definition jsRem :: "int \<Rightarrow> int \<Rightarrow> int" where
  "jsRem a b = sgn a * (\<bar>a\<bar> mod \<bar>b\<bar>)"

text \<open>
  \<^verbatim>\<open>update()\<close> runs at the simulation interval. About every ten seconds it calls the
  inactivity cleanup; the count it gets back is only logged.
\<close>

definition update :: "PhysicsRoom \<Rightarrow> int \<Rightarrow> PhysicsRoom \<times> Broadcast list" where
  "update r now =
     (let st1 = (state r)\<lparr>serverTime := now\<rparr>
      in if jsRem (serverTime st1) 10000 < 16
         then (r\<lparr>state := snd (cleanupInactivePlayers st1 300000 now)\<rparr>, [])
         else (r\<lparr>state := st1\<rparr>, []))"

subsection \<open>handleShapeUpdate\<close>

definition validateShapeData :: "ShapeData \<Rightarrow> bool" where
  "validateShapeData d \<longleftrightarrow>
     d_id d \<noteq> [] \<and> d_x d \<noteq> None \<and> d_y d \<noteq> None \<and> d_angle d \<noteq> None \<and> d_velocity d \<noteq> None"

definition isWithinBounds :: "real \<Rightarrow> real \<Rightarrow> real \<Rightarrow> real \<Rightarrow> bool" where
  "isWithinBounds width height x y \<longleftrightarrow>
     x \<ge> - 200 \<and> x \<le> width + 200 \<and> y \<ge> - 200 \<and> y \<le> height + 200"

definition applyShapeData :: "real \<Rightarrow> real \<Rightarrow> int \<Rightarrow> ShapeData \<Rightarrow> Player \<Rightarrow> Player" where
  "applyShapeData width height now d player =
     (if \<not> validateShapeData d then player
      else case (d_x d, d_y d, d_angle d, d_velocity d) of
        (Some x, Some y, Some angle, Some v) \<Rightarrow>
          if hasShape (d_id d) (p_shapes player)
          then if isWithinBounds width height x y
               then player\<lparr>p_shapes :=
                      updateFirst (d_id d)
                        (\<lambda>s. (setVelocity (setPosition s x y (Some angle) now) (v_x v) (v_y v))
                               \<lparr>s_lastUpdate := now\<rparr>)
                        (p_shapes player)\<rparr>
               else player
          else player
      | _ \<Rightarrow> player)"

text \<open>\<open>shapes\<close> is \<^verbatim>\<open>message.shapes\<close>, \<open>None\<close> when it is missing or not an array.\<close>

definition handleShapeUpdate ::
  "PhysicsRoom \<Rightarrow> string \<Rightarrow> ShapeData list option \<Rightarrow> int \<Rightarrow> PhysicsRoom \<times> Broadcast list" where
  "handleShapeUpdate r sessionId shapes now =
     (case shapes of
        None \<Rightarrow> (r, [])
      | Some ds \<Rightarrow>
         (case sessionIdToPlayerId r sessionId of
            None \<Rightarrow> (r, [])
          | Some playerId \<Rightarrow>
              if playerId = [] then (r, [])
              else case getPlayer (state r) playerId of
                     None \<Rightarrow> (r, [])
                   | Some player \<Rightarrow>
                       (r\<lparr>state := modifyPlayer playerId
                            (\<lambda>p. (fold (applyShapeData (boundaryWidth (state r))
                                          (boundaryHeight (state r)) now) ds p)
                                 \<lparr>p_lastActivity := now\<rparr>)
                            (state r)\<rparr>, [])))"

subsection \<open>handlePhysicsAction\<close>

definition belongsToAnotherPlayer :: "PhysicsState \<Rightarrow> string \<Rightarrow> string \<Rightarrow> bool" where
  "belongsToAnotherPlayer st playerId shapeId \<longleftrightarrow>
     list_ex (\<lambda>(otherPlayerId, otherPlayer).
                otherPlayerId \<noteq> playerId \<and> hasShape shapeId (p_shapes otherPlayer))
             (players st)"

text \<open>An accepted action: the shape is rewritten, the action relayed, the activity stamped.\<close>

definition acceptAction ::
  "PhysicsRoom \<Rightarrow> string \<Rightarrow> string \<Rightarrow> Action \<Rightarrow> (Shape \<Rightarrow> Shape) \<Rightarrow> int
     \<Rightarrow> PhysicsRoom \<times> Broadcast list" where
  "acceptAction r sessionId playerId action f now =
     (r\<lparr>state := modifyPlayer playerId
          (\<lambda>p. p\<lparr>p_shapes := updateFirst (a_shapeId action) f (p_shapes p),
                 p_lastActivity := now\<rparr>)
          (state r)\<rparr>,
      [PhysicsActionMsg playerId (a_shapeId action) action now (Some sessionId)])"

text \<open>\<open>msg\<close> is \<^verbatim>\<open>message.action\<close>, \<open>None\<close> when the message has none.\<close>

definition handlePhysicsAction ::
  "PhysicsRoom \<Rightarrow> string \<Rightarrow> Action option \<Rightarrow> int \<Rightarrow> PhysicsRoom \<times> Broadcast list" where
  "handlePhysicsAction r sessionId msg now =
     (case msg of
        None \<Rightarrow> (r, [])
      | Some action \<Rightarrow>
          if a_type action = [] \<or> a_shapeId action = [] then (r, [])
          else case sessionIdToPlayerId r sessionId of
            None \<Rightarrow> (r, [])
          | Some playerId \<Rightarrow>
              if playerId = [] then (r, [])
              else case getPlayer (state r) playerId of
                None \<Rightarrow> (r, [])
              | Some player \<Rightarrow>
                  if \<not> hasShape (a_shapeId action) (p_shapes player)
                  then if belongsToAnotherPlayer (state r) playerId (a_shapeId action)
                       then (r, [])
                       else (r, [])
                  else if a_type action = ''position''
                  then (case (a_x action, a_y action) of
                          (Some x, Some y) \<Rightarrow>
                            acceptAction r sessionId playerId action
                              (\<lambda>s. (let s1 = setPosition s x y (a_angle action) now;
                                         s2 = (case a_velocity action of
                                                 None \<Rightarrow> s1
                                               | Some v \<Rightarrow> setVelocity s1 (v_x v) (v_y v))
                                     in s2\<lparr>s_lastUpdate := now\<rparr>))
                              now
                        | _ \<Rightarrow> (r, []))
                  else if a_type action = ''impulse''
                  then (case a_velocity action of
                          None \<Rightarrow> (r, [])
                        | Some v \<Rightarrow>
                            acceptAction r sessionId playerId action
                              (\<lambda>s. (setVelocity s (v_x v) (v_y v))\<lparr>s_lastUpdate := now\<rparr>)
                              now)
                  else (r, []))"

subsection \<open>handleCreateShape\<close>

definition handleCreateShape ::
  "PhysicsRoom \<Rightarrow> string \<Rightarrow> int \<Rightarrow> Entropy \<Rightarrow> PhysicsRoom \<times> Broadcast list" where
  "handleCreateShape r sessionId now e =
     (case sessionIdToPlayerId r sessionId of
        None \<Rightarrow> (r, [])
      | Some playerId \<Rightarrow>
          if playerId = [] then (r, [])
          else case getPlayer (state r) playerId of
            None \<Rightarrow> (r, [])
          | Some player \<Rightarrow>
              if length (p_shapes player) > 0 then (r, [])
              else (r\<lparr>state := snd (createShapeForPlayer (state r) playerId
                                       (Some (freshShapeId playerId now e)) now e)\<rparr>, []))"

subsection \<open>checkAndResetOutOfBoundsShapes\<close>

definition isOutOfBounds :: "real \<Rightarrow> real \<Rightarrow> Shape \<Rightarrow> bool" where
  "isOutOfBounds boundaryW boundaryH shape \<longleftrightarrow>
     s_x shape < - 100 \<or> s_x shape > boundaryW + 100 \<or>
     s_y shape < - 100 \<or> s_y shape > boundaryH + 100"

definition correction :: "real \<Rightarrow> real \<Rightarrow> Action" where
  "correction newX newY =
     \<lparr>a_type = ''position'', a_shapeId = [], a_x = Some newX, a_y = Some newY,
      a_angle = Some 0, a_velocity = Some \<lparr>v_x = 0, v_y = 0\<rparr>\<rparr>"

text \<open>
  The sweep draws one \<^verbatim>\<open>Math.random()\<close> for each shape it resets: \<open>rnd\<close> is the
  sequence of values and \<open>k\<close> the number drawn so far.
\<close>

fun resetShapes ::
  "(nat \<Rightarrow> real) \<Rightarrow> int \<Rightarrow> real \<Rightarrow> real \<Rightarrow> string \<Rightarrow> Shape list \<Rightarrow> nat
     \<Rightarrow> Shape list \<times> Broadcast list \<times> nat" where
  "resetShapes rnd now bw bh playerId [] k = ([], [], k)"
| "resetShapes rnd now bw bh playerId (shape # rest) k =
     (if isOutOfBounds bw bh shape
      then (let newX = rnd k * (bw - 200) + 100;
                newY = bh - 50;
                shape' = setVelocity (setPosition shape newX newY (Some 0) now) 0 0;
                b = PhysicsActionMsg playerId (s_id shape) (correction newX newY) now None
            in case resetShapes rnd now bw bh playerId rest (Suc k) of
                 (rest', bs, k') \<Rightarrow> (shape' # rest', b # bs, k'))
      else (case resetShapes rnd now bw bh playerId rest k of
              (rest', bs, k') \<Rightarrow> (shape # rest', bs, k')))"

fun resetPlayers ::
  "(nat \<Rightarrow> real) \<Rightarrow> int \<Rightarrow> real \<Rightarrow> real \<Rightarrow> (string \<times> Player) list \<Rightarrow> nat
     \<Rightarrow> (string \<times> Player) list \<times> Broadcast list \<times> nat" where
  "resetPlayers rnd now bw bh [] k = ([], [], k)"
| "resetPlayers rnd now bw bh ((playerId, player) # rest) k =
     (case resetShapes rnd now bw bh playerId (p_shapes player) k of
        (shapes', bs, k') \<Rightarrow>
          (case resetPlayers rnd now bw bh rest k' of
             (rest', bs', k'') \<Rightarrow>
               ((playerId, player\<lparr>p_shapes := shapes'\<rparr>) # rest', bs @ bs', k'')))"

definition checkAndResetOutOfBoundsShapes ::
  "PhysicsRoom \<Rightarrow> (nat \<Rightarrow> real) \<Rightarrow> nat \<Rightarrow> int \<Rightarrow> PhysicsRoom \<times> Broadcast list \<times> nat" where
  "checkAndResetOutOfBoundsShapes r rnd k now =
     (case resetPlayers rnd now (boundaryWidth (state r)) (boundaryHeight (state r))
             (players (state r)) k of
        (ps, bs, k') \<Rightarrow> (r\<lparr>state := (state r)\<lparr>players := ps\<rparr>\<rparr>, bs, k'))"

subsection \<open>onUpdate\<close>

text \<open>
  \<^verbatim>\<open>onUpdate(deltaTime)\<close> keeps two counters of elapsed milliseconds: one for the
  boundary correction, one for the inactivity cleanup with its default limit.
\<close>

definition onUpdate ::
  "PhysicsRoom \<Rightarrow> real \<Rightarrow> (nat \<Rightarrow> real) \<Rightarrow> nat \<Rightarrow> int \<Rightarrow> PhysicsRoom \<times> Broadcast list \<times> nat" where
  "onUpdate r deltaTime rnd k now =
     (case (if outOfBoundsCheckCounter r + deltaTime > 1000
            then (case checkAndResetOutOfBoundsShapes r rnd k now of
                    (r', bs, k') \<Rightarrow> (r'\<lparr>outOfBoundsCheckCounter := 0\<rparr>, bs, k'))
            else (r\<lparr>outOfBoundsCheckCounter := outOfBoundsCheckCounter r + deltaTime\<rparr>, [], k)) of
        (r1, bs, k1) \<Rightarrow>
          (if cleanupCounter r1 + deltaTime > 30000
           then r1\<lparr>state := snd (cleanupInactivePlayers (state r1) 300000 now),
                   cleanupCounter := 0\<rparr>
           else r1\<lparr>cleanupCounter := cleanupCounter r1 + deltaTime\<rparr>,
           bs, k1))"

subsection \<open>handleRemoveShape\<close>

definition handleRemoveShape ::
  "PhysicsRoom \<Rightarrow> string \<Rightarrow> string \<Rightarrow> int \<Rightarrow> PhysicsRoom \<times> Broadcast list" where
  "handleRemoveShape r sessionId shapeId now =
     (if shapeId = [] then (r, [])
      else case sessionIdToPlayerId r sessionId of
        None \<Rightarrow> (r, [])
      | Some playerId \<Rightarrow>
          if playerId = [] then (r, [])
          else case getPlayer (state r) playerId of
            None \<Rightarrow> (r, [])
          | Some player \<Rightarrow>
              (r\<lparr>state := modifyPlayer playerId (\<lambda>p. removeShape p shapeId now) (state r)\<rparr>, []))"

subsection \<open>handleChangeBlockColor\<close>

text \<open>\<^verbatim>\<open>/^#[0-9A-F]{6}$/i\<close>\<close>

definition isHexColor :: "string \<Rightarrow> bool" where
  "isHexColor c \<longleftrightarrow>
     (case c of
        [] \<Rightarrow> False
      | h # ds \<Rightarrow> h = CHR ''#'' \<and> length ds = 6 \<and>
                  list_all (\<lambda>d. d \<in> set ''0123456789abcdefABCDEF'') ds)"

definition setColor :: "Shape \<Rightarrow> string \<Rightarrow> int \<Rightarrow> Shape" where
  "setColor s color now = s\<lparr>s_color := color, s_lastUpdate := now\<rparr>"

definition handleChangeBlockColor ::
  "PhysicsRoom \<Rightarrow> string \<Rightarrow> string \<Rightarrow> int \<Rightarrow> PhysicsRoom \<times> Broadcast list" where
  "handleChangeBlockColor r sessionId color now =
     (if color = [] then (r, [])
      else if \<not> isHexColor color then (r, [])
      else case sessionIdToPlayerId r sessionId of
        None \<Rightarrow> (r, [])
      | Some playerId \<Rightarrow>
          if playerId = [] then (r, [])
          else case getPlayer (state r) playerId of
            None \<Rightarrow> (r, [])
          | Some player \<Rightarrow>
              if length (p_shapes player) > 0
              then (r\<lparr>state := modifyPlayer playerId
                           (\<lambda>p. p\<lparr>p_shapes := map (\<lambda>s. setColor s color now) (p_shapes p)\<rparr>)
                           (state r)\<rparr>,
                    [BlockColorChanged playerId color])
              else (r, []))"

subsection \<open>The life of a room\<close>

text \<open>The room after its constructor and \<^verbatim>\<open>onCreate\<close>.\<close>

definition newRoom :: "int \<Rightarrow> PhysicsRoom" where
  "newRoom now =
     \<lparr>state = \<lparr>players = [], serverTime = now, boundaryWidth = 2400, boundaryHeight = 1800\<rparr>,
      playerIdToSessionId = Map.empty, sessionIdToPlayerId = Map.empty,
      lastActivityTime = now, outOfBoundsCheckCounter = 0, cleanupCounter = 0\<rparr>"

text \<open>
  What the room reacts to: the joins and leaves the transport reports, the messages
  registered in \<^verbatim>\<open>onCreate\<close>, and the callbacks of its timers (the store's
  clock, the simulation interval, the boundary check). Each carries the session it comes
  from, its payload, the time and the random numbers drawn.
\<close>

datatype Event =
    Join string "string option" int Entropy
  | Leave string int
  | ShapeUpdateMsg string "ShapeData list option" int
  | PhysicsActionEv string "Action option" int
  | CreateShape string int Entropy
  | RemoveShape string string int
  | ChangeBlockColor string string int
  | Ping int
  | ClockTick int
  | SimulationTick int
  | BoundaryTick "nat \<Rightarrow> real" nat int
  | UpdateTick real "nat \<Rightarrow> real" nat int

fun step :: "PhysicsRoom \<Rightarrow> Event \<Rightarrow> PhysicsRoom \<times> Broadcast list" where
  "step r (Join sessionId optPlayerId now e) = onJoin r sessionId optPlayerId now e"
| "step r (Leave sessionId now) = onLeave r sessionId now"
| "step r (ShapeUpdateMsg sessionId shapes now) = handleShapeUpdate r sessionId shapes now"
| "step r (PhysicsActionEv sessionId msg now) = handlePhysicsAction r sessionId msg now"
| "step r (CreateShape sessionId now e) = handleCreateShape r sessionId now e"
| "step r (RemoveShape sessionId shapeId now) = handleRemoveShape r sessionId shapeId now"
| "step r (ChangeBlockColor sessionId color now) = handleChangeBlockColor r sessionId color now"
| "step r (Ping now) = (r\<lparr>lastActivityTime := now\<rparr>, [])"
| "step r (ClockTick now) = (r\<lparr>state := (state r)\<lparr>serverTime := now\<rparr>\<rparr>, [])"
| "step r (SimulationTick now) = update r now"
| "step r (BoundaryTick rnd k now) =
     (case checkAndResetOutOfBoundsShapes r rnd k now of (r', bs, k') \<Rightarrow> (r', bs))"
| "step r (UpdateTick dt rnd k now) =
     (case onUpdate r dt rnd k now of (r', bs, k') \<Rightarrow> (r', bs))"

text \<open>The room after a sequence of events.\<close>

fun run :: "PhysicsRoom \<Rightarrow> Event list \<Rightarrow> PhysicsRoom" where
  "run r [] = r"
| "run r (ev # evs) = run (fst (step r ev)) evs"

text \<open>Everything the room broadcasts over a sequence of events, in order.\<close>

fun broadcasts :: "PhysicsRoom \<Rightarrow> Event list \<Rightarrow> Broadcast list" where
  "broadcasts r [] = []"
| "broadcasts r (ev # evs) = snd (step r ev) @ broadcasts (fst (step r ev)) evs"

text \<open>
  The shape ids of the store, player by player, and what the room keeps true of them:
  each player id occurs once, a player holds at most one shape, and the id of a shape of
  player \<open>k\<close> is \<open>k\<close>, an underscore, and two fields without underscore.
\<close>

definition skeleton :: "PhysicsState \<Rightarrow> (string \<times> string list) list" where
  "skeleton st = map (\<lambda>(k, p). (k, map s_id (p_shapes p))) (players st)"

definition ownsId :: "string \<Rightarrow> string \<Rightarrow> bool" where
  "ownsId k i \<longleftrightarrow>
     (\<exists>t u. i = k @ ''_'' @ t @ ''_'' @ u \<and> CHR ''_'' \<notin> set t \<and> CHR ''_'' \<notin> set u)"

definition okIds :: "string \<Rightarrow> string list \<Rightarrow> bool" where
  "okIds k ids \<longleftrightarrow> length ids \<le> 1 \<and> (\<forall>i \<in> set ids. ownsId k i)"

definition wellOwned :: "(string \<times> string list) list \<Rightarrow> bool" where
  "wellOwned sk \<longleftrightarrow> distinct (map fst sk) \<and> (\<forall>(k, ids) \<in> set sk. okIds k ids)"

text \<open>No player of the store carries the disconnected flag.\<close>

definition allConnected :: "PhysicsState \<Rightarrow> bool" where
  "allConnected st \<longleftrightarrow> list_all (\<lambda>(k, p). \<not> p_disconnected p) (players st)"

section \<open>The validator (stateValidator.js)\<close>

text \<open>
  A shape of the batch handed to \<^verbatim>\<open>validateUpdate\<close>: an object with numeric
  coordinates and a velocity object. The spread \<^verbatim>\<open>...shape\<close> keeps every other field.
\<close>

record ShapeUpdate =
  u_id :: string
  u_x :: real
  u_y :: real
  u_angle :: real
  u_velocity :: Vector

record StateValidator =
  playerStates :: "string \<rightharpoonup> ShapeUpdate list"
  lastUpdateTime :: "string \<rightharpoonup> int"

definition MAX_VELOCITY :: real where
  "MAX_VELOCITY = 50"

definition MAX_POSITION_CHANGE :: real where
  "MAX_POSITION_CHANGE = 100"

text \<open>
  \<^verbatim>\<open>this.lastUpdateTime.get(playerId) || now\<close>: a missing entry and the timestamp 0 are
  falsy. The difference is in milliseconds, \<open>deltaTime\<close> in seconds.
\<close>

definition deltaTime :: "StateValidator \<Rightarrow> string \<Rightarrow> int \<Rightarrow> real" where
  "deltaTime v playerId now =
     (let lastUpdate = (case lastUpdateTime v playerId of
                          None \<Rightarrow> now
                        | Some t \<Rightarrow> if t = 0 then now else t)
      in real_of_int (now - lastUpdate) / 1000)"

text \<open>\<^verbatim>\<open>prevShapes?.find(s => s.id === shape.id)\<close>\<close>

definition prevShape :: "ShapeUpdate list option \<Rightarrow> string \<Rightarrow> ShapeUpdate option" where
  "prevShape prevShapes i =
     (case prevShapes of None \<Rightarrow> None | Some ps \<Rightarrow> find (\<lambda>s. u_id s = i) ps)"

definition validateShape :: "ShapeUpdate list option \<Rightarrow> real \<Rightarrow> ShapeUpdate \<Rightarrow> ShapeUpdate" where
  "validateShape prevShapes dt shape =
     (case prevShape prevShapes (u_id shape) of
        None \<Rightarrow> shape
      | Some prev \<Rightarrow>
          (let velocity = \<lparr>v_x = min (max (v_x (u_velocity shape)) (- MAX_VELOCITY)) MAX_VELOCITY,
                           v_y = min (max (v_y (u_velocity shape)) (- MAX_VELOCITY)) MAX_VELOCITY\<rparr>;
               maxDelta = MAX_POSITION_CHANGE * dt;
               dx = u_x shape - u_x prev;
               dy = u_y shape - u_y prev;
               distance = sqrt (dx * dx + dy * dy)
           in if distance > maxDelta
              then (let scale = maxDelta / distance
                    in shape\<lparr>u_x := u_x prev + dx * scale, u_y := u_y prev + dy * scale,
                             u_velocity := velocity\<rparr>)
              else shape\<lparr>u_velocity := velocity\<rparr>))"

definition validateUpdate ::
  "StateValidator \<Rightarrow> string \<Rightarrow> ShapeUpdate list \<Rightarrow> int \<Rightarrow> ShapeUpdate list \<times> StateValidator" where
  "validateUpdate v playerId shapes now =
     (let validatedShapes =
            map (validateShape (playerStates v playerId) (deltaTime v playerId now)) shapes
      in (validatedShapes,
          v\<lparr>playerStates := (playerStates v)(playerId \<mapsto> validatedShapes),
            lastUpdateTime := (lastUpdateTime v)(playerId \<mapsto> now)\<rparr>))"

section \<open>A sample room\<close>

text \<open>
  Two players in the 2400 by 1800 arena: alice, connected, with one shape at (10, 20), and
  bob, disconnected since time 0, with one shape that has left the arena at x = -150.
\<close>

definition aliceShape :: Shape where
  "aliceShape = newShape ''alice_1_123'' 10 20 0 ''#3dd6d0''"

definition bobShape :: Shape where
  "bobShape = newShape ''bob_2_123'' (- 150) 900 0 ''#d63d3d''"

definition alice :: Player where
  "alice = \<lparr>p_id = ''alice'', p_shapes = [aliceShape], p_disconnected = False, p_lastActivity = 0\<rparr>"

definition bob :: Player where
  "bob = \<lparr>p_id = ''bob'', p_shapes = [bobShape], p_disconnected = True, p_lastActivity = 0\<rparr>"

definition sampleState :: PhysicsState where
  "sampleState = \<lparr>players = [(''alice'', alice), (''bob'', bob)], serverTime = 0,
                   boundaryWidth = 2400, boundaryHeight = 1800\<rparr>"

definition sampleRoom :: PhysicsRoom where
  "sampleRoom = \<lparr>state = sampleState,
                  playerIdToSessionId = [''alice'' \<mapsto> ''sessA'', ''bob'' \<mapsto> ''sessB''],
                  sessionIdToPlayerId = [''sessA'' \<mapsto> ''alice'', ''sessB'' \<mapsto> ''bob''],
                  lastActivityTime = 0, outOfBoundsCheckCounter = 0, cleanupCounter = 0\<rparr>"

section \<open>A sample validator\<close>

text \<open>
  The validator has accepted one shape of alice at the origin, at time 1000.
\<close>

definition storedShape :: ShapeUpdate where
  "storedShape = \<lparr>u_id = ''alice_1_123'', u_x = 0, u_y = 0, u_angle = 0,
                   u_velocity = \<lparr>v_x = 0, v_y = 0\<rparr>\<rparr>"

definition proposedShape :: ShapeUpdate where
  "proposedShape = \<lparr>u_id = ''alice_1_123'', u_x = 3, u_y = 4, u_angle = 0,
                     u_velocity = \<lparr>v_x = 1000, v_y = - 1000\<rparr>\<rparr>"

definition unknownShape :: ShapeUpdate where
  "unknownShape = \<lparr>u_id = ''alice_2_3'', u_x = 3, u_y = 4, u_angle = 0,
                    u_velocity = \<lparr>v_x = 1000, v_y = - 1000\<rparr>\<rparr>"

definition sampleValidator :: StateValidator where
  "sampleValidator = \<lparr>playerStates = [''alice'' \<mapsto> [storedShape]],
                       lastUpdateTime = [''alice'' \<mapsto> 1000]\<rparr>"

section \<open>Shape ids across the store\<close>

text \<open>Every shape id in the store, player by player; shape ids are unique when it is distinct.\<close>

definition shapeIds :: "PhysicsState \<Rightarrow> string list" where
  "shapeIds st = concat (map (\<lambda>(k, p). map s_id (p_shapes p)) (players st))"

section \<open>Sample messages\<close>

text \<open>alice tries to move bob's shape.\<close>

definition grab :: Action where
  "grab = \<lparr>a_type = ''position'', a_shapeId = ''bob_2_123'', a_x = Some 500, a_y = Some 500,
           a_angle = None, a_velocity = Some \<lparr>v_x = 7, v_y = 7\<rparr>\<rparr>"

text \<open>alice gives her own shape a velocity of 1000, and moves it far out of the arena.\<close>

definition bigImpulse :: Action where
  "bigImpulse = \<lparr>a_type = ''impulse'', a_shapeId = ''alice_1_123'', a_x = None, a_y = None,
                 a_angle = None, a_velocity = Some \<lparr>v_x = 1000, v_y = 0\<rparr>\<rparr>"

definition farMove :: Action where
  "farMove = \<lparr>a_type = ''position'', a_shapeId = ''alice_1_123'', a_x = Some 99999, a_y = Some 20,
              a_angle = None, a_velocity = None\<rparr>"

definition farData :: ShapeData where
  "farData = \<lparr>d_id = ''alice_1_123'', d_x = Some 99999, d_y = Some 20, d_angle = Some 0,
              d_velocity = Some \<lparr>v_x = 0, v_y = 0\<rparr>\<rparr>"

text \<open>carol holds five shapes, as many as \<^verbatim>\<open>MAX_SHAPES_PER_PLAYER\<close>.\<close>

definition carol :: Player where
  "carol = \<lparr>p_id = ''carol'',
            p_shapes = [newShape ''carol_3_1'' 100 1750 3 ''#3d3dd6'',
                        newShape ''carol_3_2'' 200 1750 3 ''#3d3dd6'',
                        newShape ''carol_3_3'' 300 1750 3 ''#3d3dd6'',
                        newShape ''carol_3_4'' 400 1750 3 ''#3d3dd6'',
                        newShape ''carol_3_5'' 500 1750 3 ''#3d3dd6''],
            p_disconnected = False, p_lastActivity = 3\<rparr>"

definition fullRoom :: PhysicsRoom where
  "fullRoom = \<lparr>state = \<lparr>players = [(''carol'', carol)], serverTime = 3,
                         boundaryWidth = 2400, boundaryHeight = 1800\<rparr>,
                playerIdToSessionId = [''carol'' \<mapsto> ''sessC''],
                sessionIdToPlayerId = [''sessC'' \<mapsto> ''carol''],
                lastActivityTime = 3, outOfBoundsCheckCounter = 0, cleanupCounter = 0\<rparr>"

definition someEntropy :: Entropy where
  "someEntropy = \<lparr>r_id = 1234 / 10000, r_x = 1 / 2, r_color = ''#d6d03d''\<rparr>"

text \<open>A room that alice and bob have joined, at times 1 and 2.\<close>

definition joinedRoom :: PhysicsRoom where
  "joinedRoom = run (newRoom 0) [Join ''sessA'' (Some ''alice'') 1 someEntropy,
                                 Join ''sessB'' (Some ''bob'') 2 someEntropy]"

text \<open>
  dana joins from one connection, joins again under the same identity from a second
  connection, and then both connections close.
\<close>

definition danaJoins :: "Event list" where
  "danaJoins = [Join ''sessD'' (Some ''dana'') 1 someEntropy,
                Join ''sessD2'' (Some ''dana'') 2 someEntropy]"

definition danaLeaves :: "Event list" where
  "danaLeaves = [Leave ''sessD'' 3, Leave ''sessD2'' 4]"

section \<open>Observing a boundary correction\<close>

text \<open>
  \<open>corrected bw bh s s'\<close> relates a shape before and after a correction tick: the same
  shape, untouched when it was inside the margin, and otherwise moved into the spawn band
  (100 from the left and right edges, 50 above the bottom edge) with zero velocity.
\<close>

definition corrected :: "real \<Rightarrow> real \<Rightarrow> Shape \<Rightarrow> Shape \<Rightarrow> bool" where
  "corrected bw bh s s' \<longleftrightarrow>
     s_id s' = s_id s \<and>
     (if isOutOfBounds bw bh s
      then 100 \<le> s_x s' \<and> s_x s' < bw - 100 \<and> s_y s' = bh - 50 \<and>
           s_velocity s' = \<lparr>v_x = 0, v_y = 0\<rparr>
      else s' = s)"

text \<open>The player and shape a corrective broadcast is about; \<open>None\<close> for any other broadcast.\<close>

fun correctionTarget :: "Broadcast \<Rightarrow> (string \<times> string) option" where
  "correctionTarget (PhysicsActionMsg playerId shapeId action t ex) =
     (if a_type action = ''position'' \<and> ex = None then Some (playerId, shapeId) else None)"
| "correctionTarget (PlayerRemoved playerId) = None"
| "correctionTarget (BlockColorChanged playerId color) = None"

text \<open>The shapes that are out of bounds, with their owners, in the order of the sweep.\<close>

definition outOfBoundsShapes :: "PhysicsState \<Rightarrow> (string \<times> string) list" where
  "outOfBoundsShapes st =
     concat (map (\<lambda>(playerId, player).
                    map (\<lambda>s. (playerId, s_id s))
                      (filter (isOutOfBounds (boundaryWidth st) (boundaryHeight st))
                         (p_shapes player)))
                 (players st))"

section \<open>Inactivity sweep\<close>

lemma removePlayer_players:
  "players (snd (removePlayer st k)) = filter (\<lambda>(k', p). k' \<noteq> k) (players st)"
proof (cases "getPlayer st k")
  case None
  then have "k \<notin> fst ` set (players st)"
    by (simp add: getPlayer_def map_of_eq_None_iff)
  then have "filter (\<lambda>(k', p). k' \<noteq> k) (players st) = players st"
    by (force simp: filter_id_conv)
  with None show ?thesis by (simp add: removePlayer_def)
next
  case (Some p)
  then show ?thesis by (simp add: removePlayer_def)
qed

lemma fold_removePlayer_players:
  "players (fold (\<lambda>k s. snd (removePlayer s k)) ids st) =
     filter (\<lambda>(k, p). k \<notin> set ids) (players st)"
proof (induction ids arbitrary: st)
  case Nil
  show ?case by simp
next
  case (Cons i ids)
  have "filter (\<lambda>(k, p). k \<notin> set ids) (filter (\<lambda>(k', p). k' \<noteq> i) (players st)) =
        filter (\<lambda>(k, p). k \<notin> set (i # ids)) (players st)"
    by (auto intro: filter_cong)
  with Cons.IH [of "snd (removePlayer st i)"] show ?case
    by (simp add: removePlayer_players)
qed

lemma cleanup_players:
  assumes "distinct (map fst (players st))"
  shows "players (snd (cleanupInactivePlayers st m now)) =
           filter (\<lambda>(k, p). \<not> inactive m now p) (players st)"
proof -
  have "filter (\<lambda>(k, p). k \<notin> set (playersToRemove st m now)) (players st) =
        filter (\<lambda>(k, p). \<not> inactive m now p) (players st)"
  proof (rule filter_cong [OF refl])
    fix e assume e: "e \<in> set (players st)"
    obtain k p where kp: "e = (k, p)" by (cases e)
    have "k \<in> set (playersToRemove st m now) \<longleftrightarrow> inactive m now p"
    proof
      assume "k \<in> set (playersToRemove st m now)"
      then obtain q where q: "(k, q) \<in> set (players st)" "inactive m now q"
        by (auto simp: playersToRemove_def)
      from assms q(1) e kp have "q = p"
        by (meson eq_key_imp_eq_value)
      with q(2) show "inactive m now p" by simp
    next
      assume "inactive m now p"
      with e kp show "k \<in> set (playersToRemove st m now)"
        by (force simp: playersToRemove_def)
    qed
    with kp show "(case e of (k, p) \<Rightarrow> k \<notin> set (playersToRemove st m now)) =
                  (case e of (k, p) \<Rightarrow> \<not> inactive m now p)"
      by simp
  qed
  then show ?thesis
    by (simp add: cleanupInactivePlayers_def Let_def fold_removePlayer_players)
qed

lemma map_of_filter_distinct:
  "distinct (map fst xs) \<Longrightarrow>
   map_of (filter (\<lambda>(k, v). P v) xs) k =
     (case map_of xs k of None \<Rightarrow> None | Some v \<Rightarrow> if P v then Some v else None)"
proof (induction xs)
  case Nil
  show ?case by simp
next
  case (Cons e xs)
  obtain k' v' where e: "e = (k', v')" by (cases e)
  from Cons.prems e have notin: "k' \<notin> fst ` set xs" and d: "distinct (map fst xs)"
    by auto
  from notin have none: "map_of xs k' = None"
    by (simp add: map_of_eq_None_iff)
  show ?case
  proof (cases "k = k'")
    case True
    have "map_of (filter (\<lambda>(k, v). P v) xs) k' = None"
      using Cons.IH [OF d] none True by simp
    with True e show ?thesis by simp
  next
    case False
    with Cons.IH [OF d] e show ?thesis by simp
  qed
qed

lemma playersToRemove_distinct:
  "distinct (map fst (players st)) \<Longrightarrow> distinct (playersToRemove st m now)"
  unfolding playersToRemove_def by (rule distinct_map_filter)

text \<open>
  C10. The inactivity cleanup never removes a player whose disconnected flag is false,
  however old the last activity; it removes exactly the players that are disconnected and
  inactive for longer than the limit, and the count it returns is the number of players
  removed. The store holds each player id once.
\<close>

theorem cleanupInactivePlayers_removes_only_disconnected_inactive:
  assumes d: "distinct (map fst (players st))"
      and c: "cleanupInactivePlayers st m now = (n, st')"
  shows "(\<forall>pid p. getPlayer st pid = Some p \<longrightarrow>
            (if p_disconnected p \<and> now - p_lastActivity p > m
             then getPlayer st' pid = None else getPlayer st' pid = Some p)) \<and>
         (\<forall>pid. getPlayer st pid = None \<longrightarrow> getPlayer st' pid = None) \<and>
         n = card {pid. getPlayer st pid \<noteq> None \<and> getPlayer st' pid = None}"
proof -
  from c have st': "st' = snd (cleanupInactivePlayers st m now)"
    and n: "n = length (playersToRemove st m now)"
    by (simp_all add: cleanupInactivePlayers_def Let_def)
  have look: "getPlayer st' pid =
      (case getPlayer st pid of None \<Rightarrow> None
       | Some p \<Rightarrow> if \<not> inactive m now p then Some p else None)" for pid
    unfolding getPlayer_def st' cleanup_players [OF d]
    by (rule map_of_filter_distinct [OF d])
  have removed: "{pid. getPlayer st pid \<noteq> None \<and> getPlayer st' pid = None} =
                 set (playersToRemove st m now)"
  proof (rule set_eqI)
    fix pid
    have "pid \<in> set (playersToRemove st m now) \<longleftrightarrow>
          (\<exists>p. (pid, p) \<in> set (players st) \<and> inactive m now p)"
      by (force simp: playersToRemove_def)
    also have "\<dots> \<longleftrightarrow> (\<exists>p. getPlayer st pid = Some p \<and> inactive m now p)"
      using d by (auto simp: getPlayer_def)
    finally show "pid \<in> {pid. getPlayer st pid \<noteq> None \<and> getPlayer st' pid = None} \<longleftrightarrow>
                  pid \<in> set (playersToRemove st m now)"
      by (auto simp: look split: option.splits if_splits)
  qed
  have "card (set (playersToRemove st m now)) = length (playersToRemove st m now)"
    by (rule distinct_card [OF playersToRemove_distinct [OF d]])
  with removed n have cnt: "n = card {pid. getPlayer st pid \<noteq> None \<and> getPlayer st' pid = None}"
    by simp
  show ?thesis
    using cnt by (auto simp: look inactive_def)
qed

text \<open>
  In the sample store, 400 seconds after both players were last active, the cleanup with
  the limit of 300 seconds removes bob, who is disconnected, keeps alice, who is not, and
  returns 1.
\<close>

theorem cleanupInactivePlayers_witness:
  "distinct (map fst (players sampleState)) \<and>
   cleanupInactivePlayers sampleState 300000 400000 =
     (1, sampleState\<lparr>players := [(''alice'', alice)]\<rparr>) \<and>
   getPlayer (sampleState\<lparr>players := [(''alice'', alice)]\<rparr>) ''alice'' = Some alice \<and>
   getPlayer (sampleState\<lparr>players := [(''alice'', alice)]\<rparr>) ''bob'' = None \<and>
   (1::nat) = card {pid. getPlayer sampleState pid \<noteq> None \<and>
                getPlayer (sampleState\<lparr>players := [(''alice'', alice)]\<rparr>) pid = None}"
proof -
  have d: "distinct (map fst (players sampleState))"
    by (simp add: sampleState_def)
  have c: "cleanupInactivePlayers sampleState 300000 400000 =
             (1, sampleState\<lparr>players := [(''alice'', alice)]\<rparr>)"
    by (simp add: cleanupInactivePlayers_def playersToRemove_def inactive_def removePlayer_def
        getPlayer_def sampleState_def alice_def bob_def)
  from cleanupInactivePlayers_removes_only_disconnected_inactive [OF d c]
  have "1 = card {pid. getPlayer sampleState pid \<noteq> None \<and>
                getPlayer (sampleState\<lparr>players := [(''alice'', alice)]\<rparr>) pid = None}"
    by blast
  with d c show ?thesis
    by (simp add: getPlayer_def)
qed

section \<open>The validator's clamps\<close>

lemma validateUpdate_nth:
  "i < length shapes \<Longrightarrow>
   fst (validateUpdate v playerId shapes now) ! i =
     validateShape (playerStates v playerId) (deltaTime v playerId now) (shapes ! i)"
  by (simp add: validateUpdate_def Let_def)

lemma scaled_distance:
  fixes dx dy m :: real
  assumes m: "0 \<le> m" and far: "sqrt (dx * dx + dy * dy) > m"
  shows "sqrt ((dx * (m / sqrt (dx * dx + dy * dy)))\<^sup>2 + (dy * (m / sqrt (dx * dx + dy * dy)))\<^sup>2) = m"
proof -
  define d where "d = sqrt (dx * dx + dy * dy)"
  from m far have dpos: "0 < d" unfolding d_def by linarith
  have sq: "d\<^sup>2 = dx * dx + dy * dy"
    unfolding d_def by (simp add: power2_eq_square [symmetric])
  have "(dx * c)\<^sup>2 + (dy * c)\<^sup>2 = c\<^sup>2 * (dx * dx + dy * dy)" for c :: real
    by (simp add: power2_eq_square algebra_simps)
  then have "(dx * (m / d))\<^sup>2 + (dy * (m / d))\<^sup>2 = (m / d)\<^sup>2 * (dx * dx + dy * dy)" .
  also have "\<dots> = (m / d)\<^sup>2 * d\<^sup>2" by (simp add: sq)
  also have "\<dots> = m\<^sup>2" using dpos by (simp add: power_divide)
  finally have "sqrt ((dx * (m / d))\<^sup>2 + (dy * (m / d))\<^sup>2) = sqrt (m\<^sup>2)" by simp
  with m show ?thesis by (simp add: d_def)
qed

lemma sqrt_25: "sqrt 25 = 5"
  using real_sqrt_abs [of 5] by simp

text \<open>
  C3. For a shape of the batch with a previously accepted state \<open>p0\<close>, proposed at \<open>p1\<close>
  after the elapsed time \<open>deltaTime\<close> (not negative), with the rate 100: when the distance
  from \<open>p0\<close> to \<open>p1\<close> exceeds \<open>100 * deltaTime\<close>, the accepted position lies on the
  segment from \<open>p0\<close> to \<open>p1\<close> at distance exactly \<open>100 * deltaTime\<close> from \<open>p0\<close>;
  otherwise it is \<open>p1\<close>.
\<close>

theorem validateUpdate_soft_clamp:
  assumes i: "i < length shapes"
      and prev: "prevShape (playerStates v playerId) (u_id (shapes ! i)) = Some p0"
      and dt: "0 \<le> deltaTime v playerId now"
  shows "let p1 = shapes ! i;
             p' = fst (validateUpdate v playerId shapes now) ! i;
             maxDelta = 100 * deltaTime v playerId now
         in if sqrt ((u_x p1 - u_x p0)\<^sup>2 + (u_y p1 - u_y p0)\<^sup>2) > maxDelta
            then (\<exists>t. 0 \<le> t \<and> t \<le> 1 \<and>
                      u_x p' = u_x p0 + t * (u_x p1 - u_x p0) \<and>
                      u_y p' = u_y p0 + t * (u_y p1 - u_y p0)) \<and>
                 sqrt ((u_x p' - u_x p0)\<^sup>2 + (u_y p' - u_y p0)\<^sup>2) = maxDelta
            else u_x p' = u_x p1 \<and> u_y p' = u_y p1"
proof -
  define p1 where "p1 = shapes ! i"
  define m where "m = 100 * deltaTime v playerId now"
  define dx where "dx = u_x p1 - u_x p0"
  define dy where "dy = u_y p1 - u_y p0"
  define d where "d = sqrt (dx * dx + dy * dy)"
  define p' where "p' = fst (validateUpdate v playerId shapes now) ! i"
  have m0: "0 \<le> m" using dt by (simp add: m_def)
  have d_alt: "sqrt ((u_x p1 - u_x p0)\<^sup>2 + (u_y p1 - u_y p0)\<^sup>2) = d"
    by (simp add: d_def dx_def dy_def power2_eq_square)
  have p'_eq: "p' = validateShape (playerStates v playerId) (deltaTime v playerId now) p1"
    unfolding p'_def p1_def by (rule validateUpdate_nth [OF i])
  have far: "u_x p' = u_x p0 + dx * (m / d) \<and> u_y p' = u_y p0 + dy * (m / d)" if "d > m"
    using that prev
    by (simp add: p'_eq validateShape_def p1_def [symmetric] Let_def MAX_POSITION_CHANGE_def
        dx_def [symmetric] dy_def [symmetric] d_def [symmetric] m_def [symmetric])
  have near: "u_x p' = u_x p1 \<and> u_y p' = u_y p1" if "\<not> d > m"
    using that prev
    by (simp add: p'_eq validateShape_def p1_def [symmetric] Let_def MAX_POSITION_CHANGE_def
        dx_def [symmetric] dy_def [symmetric] d_def [symmetric] m_def [symmetric])
  have clamp: "(\<exists>t. 0 \<le> t \<and> t \<le> 1 \<and> u_x p' = u_x p0 + t * dx \<and> u_y p' = u_y p0 + t * dy) \<and>
               sqrt ((u_x p' - u_x p0)\<^sup>2 + (u_y p' - u_y p0)\<^sup>2) = m" if gt: "d > m"
  proof
    from m0 gt have dpos: "0 < d" by simp
    from m0 gt dpos have "0 \<le> m / d" "m / d \<le> 1" by simp_all
    with far [OF gt]
    show "\<exists>t. 0 \<le> t \<and> t \<le> 1 \<and> u_x p' = u_x p0 + t * dx \<and> u_y p' = u_y p0 + t * dy"
      by (intro exI [of _ "m / d"]) (simp add: mult.commute)
    from gt have "sqrt (dx * dx + dy * dy) > m" by (simp add: d_def)
    from scaled_distance [OF m0 this] far [OF gt]
    show "sqrt ((u_x p' - u_x p0)\<^sup>2 + (u_y p' - u_y p0)\<^sup>2) = m"
      by (simp add: d_def)
  qed
  show ?thesis
    unfolding Let_def p1_def [symmetric] p'_def [symmetric] m_def [symmetric] d_alt
    using clamp near by (simp add: dx_def dy_def)
qed

text \<open>
  The stored shape is at the origin, the proposal at (3, 4), 10 ms later: the distance 5
  exceeds the allowance 1, and the accepted position is at distance 1 from the origin.
\<close>

theorem validateUpdate_soft_clamp_witness:
  "0 < length [proposedShape] \<and>
   prevShape (playerStates sampleValidator ''alice'') (u_id ([proposedShape] ! 0)) = Some storedShape \<and>
   0 \<le> deltaTime sampleValidator ''alice'' 1010 \<and>
   sqrt ((u_x proposedShape - u_x storedShape)\<^sup>2 + (u_y proposedShape - u_y storedShape)\<^sup>2) = 5 \<and>
   100 * deltaTime sampleValidator ''alice'' 1010 = 1 \<and>
   sqrt ((u_x (fst (validateUpdate sampleValidator ''alice'' [proposedShape] 1010) ! 0) - u_x storedShape)\<^sup>2 +
         (u_y (fst (validateUpdate sampleValidator ''alice'' [proposedShape] 1010) ! 0) - u_y storedShape)\<^sup>2) = 1"
proof -
  have i: "0 < length [proposedShape]" by simp
  have prev: "prevShape (playerStates sampleValidator ''alice'') (u_id ([proposedShape] ! 0)) =
                Some storedShape"
    by (simp add: prevShape_def sampleValidator_def storedShape_def proposedShape_def)
  have dt: "deltaTime sampleValidator ''alice'' 1010 = 1 / 100"
    by (simp add: deltaTime_def sampleValidator_def)
  have dt0: "0 \<le> deltaTime sampleValidator ''alice'' 1010" by (simp add: dt)
  have dist: "sqrt ((u_x proposedShape - u_x storedShape)\<^sup>2 +
                    (u_y proposedShape - u_y storedShape)\<^sup>2) = 5"
    by (simp add: proposedShape_def storedShape_def sqrt_25)
  have far: "sqrt ((u_x proposedShape - u_x storedShape)\<^sup>2 +
                   (u_y proposedShape - u_y storedShape)\<^sup>2) >
             100 * deltaTime sampleValidator ''alice'' 1010"
    unfolding dist dt by simp
  have "sqrt ((u_x (fst (validateUpdate sampleValidator ''alice'' [proposedShape] 1010) ! 0) - u_x storedShape)\<^sup>2 +
         (u_y (fst (validateUpdate sampleValidator ''alice'' [proposedShape] 1010) ! 0) - u_y storedShape)\<^sup>2) =
        100 * deltaTime sampleValidator ''alice'' 1010"
    using far validateUpdate_soft_clamp [OF i prev dt0]
    by (simp only: Let_def nth_Cons_0 if_True)
  then have "sqrt ((u_x (fst (validateUpdate sampleValidator ''alice'' [proposedShape] 1010) ! 0) - u_x storedShape)\<^sup>2 +
         (u_y (fst (validateUpdate sampleValidator ''alice'' [proposedShape] 1010) ! 0) - u_y storedShape)\<^sup>2) = 1"
    unfolding dt by simp
  moreover have "100 * deltaTime sampleValidator ''alice'' 1010 = 1"
    by (simp add: dt)
  ultimately show ?thesis
    using i prev dt0 dist by (intro conjI)
qed

text \<open>
  C9. A shape of the batch whose id has no previously stored state for the player is
  returned as it was submitted: no velocity clamp and no displacement clamp is applied.
\<close>

theorem validateUpdate_new_shape_unchanged:
  assumes "i < length shapes"
      and "prevShape (playerStates v playerId) (u_id (shapes ! i)) = None"
  shows "length (fst (validateUpdate v playerId shapes now)) = length shapes \<and>
         fst (validateUpdate v playerId shapes now) ! i = shapes ! i"
  using assms by (simp add: validateUpdate_def Let_def validateShape_def)

text \<open>A shape with an unknown id keeps its velocity component of 1000.\<close>

theorem validateUpdate_new_shape_witness:
  "0 < length [unknownShape] \<and>
   prevShape (playerStates sampleValidator ''alice'') (u_id ([unknownShape] ! 0)) = None \<and>
   fst (validateUpdate sampleValidator ''alice'' [unknownShape] 1010) ! 0 = unknownShape \<and>
   v_x (u_velocity (fst (validateUpdate sampleValidator ''alice'' [unknownShape] 1010) ! 0)) = 1000"
proof -
  have i: "0 < length [unknownShape]" by simp
  have prev: "prevShape (playerStates sampleValidator ''alice'') (u_id ([unknownShape] ! 0)) = None"
    by (simp add: prevShape_def sampleValidator_def storedShape_def unknownShape_def)
  from validateUpdate_new_shape_unchanged [OF i prev, of 1010]
  have same: "fst (validateUpdate sampleValidator ''alice'' [unknownShape] 1010) ! 0 = unknownShape"
    by simp
  then have "v_x (u_velocity (fst (validateUpdate sampleValidator ''alice'' [unknownShape] 1010) ! 0)) = 1000"
    by (simp add: unknownShape_def)
  with i prev same show ?thesis by simp
qed

text \<open>
  C4, as amended. For a shape of a batch passed to \<^verbatim>\<open>validateUpdate\<close> that has a
  previously stored state, each component of the returned velocity lies in [-50, 50] and
  is the proposed component truncated to that range; no shape of the batch is dropped.
\<close>

theorem validateUpdate_velocity_bound:
  assumes i: "i < length shapes"
      and prev: "prevShape (playerStates v playerId) (u_id (shapes ! i)) = Some p0"
  shows "length (fst (validateUpdate v playerId shapes now)) = length shapes \<and>
         (let w = u_velocity (shapes ! i);
              w' = u_velocity (fst (validateUpdate v playerId shapes now) ! i)
          in - 50 \<le> v_x w' \<and> v_x w' \<le> 50 \<and> - 50 \<le> v_y w' \<and> v_y w' \<le> 50 \<and>
             v_x w' = min (max (v_x w) (- 50)) 50 \<and> v_y w' = min (max (v_y w) (- 50)) 50)"
proof
  show "length (fst (validateUpdate v playerId shapes now)) = length shapes"
    by (simp add: validateUpdate_def Let_def)
  show "let w = u_velocity (shapes ! i);
            w' = u_velocity (fst (validateUpdate v playerId shapes now) ! i)
        in - 50 \<le> v_x w' \<and> v_x w' \<le> 50 \<and> - 50 \<le> v_y w' \<and> v_y w' \<le> 50 \<and>
           v_x w' = min (max (v_x w) (- 50)) 50 \<and> v_y w' = min (max (v_y w) (- 50)) 50"
    using prev
    by (simp add: validateUpdate_nth [OF i] validateShape_def Let_def MAX_VELOCITY_def)
qed

text \<open>The proposed velocity (1000, -1000) comes back as (50, -50).\<close>

theorem validateUpdate_velocity_bound_witness:
  "0 < length [proposedShape] \<and>
   prevShape (playerStates sampleValidator ''alice'') (u_id ([proposedShape] ! 0)) = Some storedShape \<and>
   u_velocity (fst (validateUpdate sampleValidator ''alice'' [proposedShape] 1010) ! 0) =
     \<lparr>v_x = 50, v_y = - 50\<rparr>"
proof -
  have i: "0 < length [proposedShape]" by simp
  have prev: "prevShape (playerStates sampleValidator ''alice'') (u_id ([proposedShape] ! 0)) =
                Some storedShape"
    by (simp add: prevShape_def sampleValidator_def storedShape_def proposedShape_def)
  from validateUpdate_velocity_bound [OF i prev, of 1010]
  have "v_x (u_velocity (fst (validateUpdate sampleValidator ''alice'' [proposedShape] 1010) ! 0)) = 50"
    and "v_y (u_velocity (fst (validateUpdate sampleValidator ''alice'' [proposedShape] 1010) ! 0)) = - 50"
    by (simp_all add: Let_def proposedShape_def)
  then have "u_velocity (fst (validateUpdate sampleValidator ''alice'' [proposedShape] 1010) ! 0) =
     \<lparr>v_x = 50, v_y = - 50\<rparr>"
    by (cases "u_velocity (fst (validateUpdate sampleValidator ''alice'' [proposedShape] 1010) ! 0)") simp
  with i prev show ?thesis by simp
qed

section \<open>Ownership\<close>

lemma hasShape_iff: "hasShape i ss \<longleftrightarrow> i \<in> s_id ` set ss"
  by (induction ss) (auto simp: hasShape_def)

lemma distinct_concat_disjoint:
  "distinct (concat (map f xs)) \<Longrightarrow> x \<in> set xs \<Longrightarrow> y \<in> set xs \<Longrightarrow> x \<noteq> y \<Longrightarrow>
   i \<in> set (f y) \<Longrightarrow> i \<notin> set (f x)"
  by (induction xs) auto

text \<open>In a store whose shape ids are unique, an action on a shape of another player does nothing.\<close>

lemma foreign_shape_noop_unique:
  assumes sender: "sessionIdToPlayerId r sessionId = Some a"
      and other: "getPlayer (state r) b = Some pb"
      and ne: "a \<noteq> b"
      and owned: "hasShape (a_shapeId action) (p_shapes pb)"
      and uniq: "distinct (shapeIds (state r))"
  shows "handlePhysicsAction r sessionId (Some action) now = (r, [])"
proof (cases "getPlayer (state r) a")
  case None
  with sender show ?thesis by (simp add: handlePhysicsAction_def)
next
  case (Some pa)
  from Some have ina: "(a, pa) \<in> set (players (state r))"
    by (simp add: getPlayer_def map_of_SomeD)
  from other have inb: "(b, pb) \<in> set (players (state r))"
    by (simp add: getPlayer_def map_of_SomeD)
  from owned have "a_shapeId action \<in> set ((\<lambda>(k, p). map s_id (p_shapes p)) (b, pb))"
    by (simp add: hasShape_iff)
  with distinct_concat_disjoint [OF uniq [unfolded shapeIds_def] ina inb] ne
  have "a_shapeId action \<notin> set ((\<lambda>(k, p). map s_id (p_shapes p)) (a, pa))"
    by blast
  then have "\<not> hasShape (a_shapeId action) (p_shapes pa)"
    by (simp add: hasShape_iff)
  with sender Some show ?thesis by (simp add: handlePhysicsAction_def)
qed

section \<open>What the room accepts\<close>

text \<open>
  C4 as stated speaks of the velocity stored in server state. The room stores the velocity
  of an impulse as it was sent: alice's impulse of 1000 is accepted, stored and relayed.
\<close>

theorem impulse_velocity_counterexample:
  "handlePhysicsAction sampleRoom ''sessA'' (Some bigImpulse) 5 =
     (sampleRoom\<lparr>state := sampleState\<lparr>players :=
        [(''alice'', alice\<lparr>p_shapes := [aliceShape\<lparr>s_velocity := \<lparr>v_x = 1000, v_y = 0\<rparr>,
                                                    s_lastUpdate := 5\<rparr>],
                           p_lastActivity := 5\<rparr>),
         (''bob'', bob)]\<rparr>\<rparr>,
      [PhysicsActionMsg ''alice'' ''alice_1_123'' bigImpulse 5 (Some ''sessA'')]) \<and>
   \<not> v_x (s_velocity (aliceShape\<lparr>s_velocity := \<lparr>v_x = 1000, v_y = 0\<rparr>, s_lastUpdate := 5\<rparr>)) \<le> 50"
  by (simp add: handlePhysicsAction_def acceptAction_def modifyPlayer_def getPlayer_def
      hasShape_def setVelocity_def sampleRoom_def sampleState_def alice_def bob_def
      aliceShape_def newShape_def bigImpulse_def)

text \<open>
  The \<^verbatim>\<open>shape_update\<close> path drops an element whose position is outside the arena
  widened by 200: the player is as before.
\<close>

lemma applyShapeData_out_of_bounds:
  "d_x d = Some x \<Longrightarrow> d_y d = Some y \<Longrightarrow> \<not> isWithinBounds w h x y \<Longrightarrow>
   applyShapeData w h now d p = p"
  by (simp add: applyShapeData_def split: option.splits)

lemma handleShapeUpdate_rejects_out_of_bounds:
  "handleShapeUpdate sampleRoom ''sessA'' (Some [farData]) 5 =
     (sampleRoom\<lparr>state := sampleState\<lparr>players :=
        [(''alice'', alice\<lparr>p_lastActivity := 5\<rparr>), (''bob'', bob)]\<rparr>\<rparr>, [])"
  by (simp add: handleShapeUpdate_def applyShapeData_def validateShapeData_def modifyPlayer_def
      getPlayer_def hasShape_def isWithinBounds_def sampleRoom_def sampleState_def alice_def
      bob_def aliceShape_def newShape_def farData_def)

text \<open>
  C6. The \<^verbatim>\<open>physics_action\<close> path has no such check: alice's position action with
  x = 99999, outside the widened arena, is applied to her shape and relayed.
\<close>

theorem handlePhysicsAction_accepts_out_of_bounds:
  "\<not> isWithinBounds (boundaryWidth (state sampleRoom)) (boundaryHeight (state sampleRoom)) 99999 20 \<and>
   handlePhysicsAction sampleRoom ''sessA'' (Some farMove) 5 =
     (sampleRoom\<lparr>state := sampleState\<lparr>players :=
        [(''alice'', alice\<lparr>p_shapes := [aliceShape\<lparr>s_x := 99999, s_lastUpdate := 5\<rparr>],
                           p_lastActivity := 5\<rparr>),
         (''bob'', bob)]\<rparr>\<rparr>,
      [PhysicsActionMsg ''alice'' ''alice_1_123'' farMove 5 (Some ''sessA'')])"
  by (simp add: handlePhysicsAction_def acceptAction_def modifyPlayer_def getPlayer_def
      hasShape_def setPosition_def isWithinBounds_def sampleRoom_def sampleState_def alice_def
      bob_def aliceShape_def newShape_def farMove_def)

section \<open>Shape creation\<close>

text \<open>
  C7. A \<^verbatim>\<open>create_shape\<close> request from a player who holds
  \<^verbatim>\<open>MAX_SHAPES_PER_PLAYER\<close> shapes leaves the room as it was; the handler never
  broadcasts; and \<^verbatim>\<open>createShapeForPlayer\<close> fails, leaving the store as it was, when
  the player is not in the store.
\<close>

theorem handleCreateShape_at_capacity:
  "(sessionIdToPlayerId r sessionId = Some playerId \<and>
    getPlayer (state r) playerId = Some player \<and>
    length (p_shapes player) = MAX_SHAPES_PER_PLAYER
      \<longrightarrow> handleCreateShape r sessionId now e = (r, [])) \<and>
   snd (handleCreateShape r sessionId now e) = [] \<and>
   (getPlayer st missing = None
      \<longrightarrow> createShapeForPlayer st missing customShapeId now e = (None, st))"
  by (auto simp: handleCreateShape_def createShapeForPlayer_def MAX_SHAPES_PER_PLAYER_def
      split: option.splits)

text \<open>carol, with five shapes, asks for a sixth; and a shape is asked for the unknown dave.\<close>

theorem handleCreateShape_at_capacity_witness:
  "sessionIdToPlayerId fullRoom ''sessC'' = Some ''carol'' \<and>
   getPlayer (state fullRoom) ''carol'' = Some carol \<and>
   length (p_shapes carol) = MAX_SHAPES_PER_PLAYER \<and>
   handleCreateShape fullRoom ''sessC'' 9 someEntropy = (fullRoom, []) \<and>
   getPlayer sampleState ''dave'' = None \<and>
   createShapeForPlayer sampleState ''dave'' None 9 someEntropy = (None, sampleState)"
proof -
  have s: "sessionIdToPlayerId fullRoom ''sessC'' = Some ''carol''"
    by (simp add: fullRoom_def)
  have p: "getPlayer (state fullRoom) ''carol'' = Some carol"
    by (simp add: fullRoom_def getPlayer_def)
  have n: "length (p_shapes carol) = MAX_SHAPES_PER_PLAYER"
    by (simp add: carol_def MAX_SHAPES_PER_PLAYER_def)
  have m: "getPlayer sampleState ''dave'' = None"
    by (simp add: sampleState_def getPlayer_def)
  from handleCreateShape_at_capacity
         [of fullRoom "''sessC''" "''carol''" carol 9 someEntropy sampleState "''dave''" None]
       s p n m
  show ?thesis by simp
qed

section \<open>Boundary correction\<close>

lemma spawn_band:
  fixes u bw :: real
  assumes "0 \<le> u" "u < 1" "200 < bw"
  shows "100 \<le> u * (bw - 200) + 100 \<and> u * (bw - 200) + 100 < bw - 100"
proof -
  from assms have "0 \<le> u * (bw - 200)" by simp
  moreover from assms have "u * (bw - 200) < 1 * (bw - 200)"
    by (intro mult_strict_right_mono) simp_all
  ultimately show ?thesis by simp
qed

lemma resetShapes_corrected:
  assumes rnd: "\<forall>n. 0 \<le> rnd n \<and> rnd n < 1" and bw: "200 < bw"
  shows "resetShapes rnd now bw bh pid ss k = (ss', bs, k') \<Longrightarrow>
         list_all2 (corrected bw bh) ss ss' \<and>
         map correctionTarget bs = map (\<lambda>s. Some (pid, s_id s)) (filter (isOutOfBounds bw bh) ss)"
proof (induction ss arbitrary: k ss' bs k')
  case Nil
  then show ?case by simp
next
  case (Cons s ss)
  show ?case
  proof (cases "isOutOfBounds bw bh s")
    case True
    obtain r1 b1 k1 where rec: "resetShapes rnd now bw bh pid ss (Suc k) = (r1, b1, k1)"
      by (cases "resetShapes rnd now bw bh pid ss (Suc k)") auto
    from rnd have "0 \<le> rnd k" "rnd k < 1" by simp_all
    from spawn_band [OF this bw]
    have here: "corrected bw bh s
                  (setVelocity (setPosition s (rnd k * (bw - 200) + 100) (bh - 50) (Some 0) now) 0 0)"
      using True by (simp add: corrected_def setVelocity_def setPosition_def)
    from Cons.prems True rec Cons.IH [OF rec] here show ?thesis
      by (auto simp: Let_def correction_def)
  next
    case False
    obtain r1 b1 k1 where rec: "resetShapes rnd now bw bh pid ss k = (r1, b1, k1)"
      by (cases "resetShapes rnd now bw bh pid ss k") auto
    from False have here: "corrected bw bh s s" by (simp add: corrected_def)
    from Cons.prems False rec Cons.IH [OF rec] here show ?thesis
      by auto
  qed
qed

lemma resetPlayers_corrected:
  assumes rnd: "\<forall>n. 0 \<le> rnd n \<and> rnd n < 1" and bw: "200 < bw"
  shows "resetPlayers rnd now bw bh ps k = (ps', bs, k') \<Longrightarrow>
         list_all2 (\<lambda>(pid, p) (pid', p').
             pid' = pid \<and> list_all2 (corrected bw bh) (p_shapes p) (p_shapes p') \<and>
             p' = p\<lparr>p_shapes := p_shapes p'\<rparr>) ps ps' \<and>
         map correctionTarget bs =
           concat (map (\<lambda>(pid, p). map (\<lambda>s. Some (pid, s_id s))
                                      (filter (isOutOfBounds bw bh) (p_shapes p))) ps)"
proof (induction ps arbitrary: k ps' bs k')
  case Nil
  then show ?case by simp
next
  case (Cons e ps)
  obtain pid p where e: "e = (pid, p)" by (cases e)
  obtain s1 b1 k1 where sh: "resetShapes rnd now bw bh pid (p_shapes p) k = (s1, b1, k1)"
    by (cases "resetShapes rnd now bw bh pid (p_shapes p) k") auto
  obtain r2 b2 k2 where rec: "resetPlayers rnd now bw bh ps k1 = (r2, b2, k2)"
    by (cases "resetPlayers rnd now bw bh ps k1") auto
  from Cons.prems e sh rec
  have res: "ps' = (pid, p\<lparr>p_shapes := s1\<rparr>) # r2" "bs = b1 @ b2"
    by simp_all
  from resetShapes_corrected [OF rnd bw sh] Cons.IH [OF rec] show ?case
    by (simp add: res e)
qed


text \<open>
  C5, as amended. In the 2400 by 1800 arena, one correction tick moves every shape that
  is outside the arena by more than the margin of 100 to a position with x in [100, 2300)
  and y = 1750, with velocity (0, 0); it leaves every other shape as it was, destroys no
  shape (each player keeps the same shapes, by id and in order), and emits exactly one
  corrective broadcast for each shape it moved, in the order of the sweep.
\<close>

theorem checkAndResetOutOfBoundsShapes_repositions:
  assumes arena: "boundaryWidth (state r) = 2400" "boundaryHeight (state r) = 1800"
      and rnd: "\<forall>n. 0 \<le> rnd n \<and> rnd n < 1"
      and tick: "checkAndResetOutOfBoundsShapes r rnd k now = (r', bs, k')"
  shows "list_all2 (\<lambda>(pid, p) (pid', p').
             pid' = pid \<and> list_all2 (corrected 2400 1800) (p_shapes p) (p_shapes p'))
           (players (state r)) (players (state r')) \<and>
         map correctionTarget bs = map Some (outOfBoundsShapes (state r))"
proof -
  obtain ps where rp: "resetPlayers rnd now 2400 1800 (players (state r)) k = (ps, bs, k')"
    and r': "r' = r\<lparr>state := (state r)\<lparr>players := ps\<rparr>\<rparr>"
    using tick arena
    by (cases "resetPlayers rnd now 2400 1800 (players (state r)) k")
       (auto simp: checkAndResetOutOfBoundsShapes_def)
  have wide: "(200::real) < 2400" by simp
  note both = resetPlayers_corrected [OF rnd wide rp]
  from both have "list_all2 (\<lambda>(pid, p) (pid', p').
             pid' = pid \<and> list_all2 (corrected 2400 1800) (p_shapes p) (p_shapes p'))
           (players (state r)) ps"
    by (auto elim!: list_all2_mono)
  moreover have "map correctionTarget bs = map Some (outOfBoundsShapes (state r))"
    using both
    by (simp add: outOfBoundsShapes_def arena map_concat comp_def case_prod_unfold)
  ultimately show ?thesis by (simp add: r')
qed

text \<open>
  In the sample room bob's shape is at x = -150. With the random number 1/2 the tick moves
  it to (1200, 1750) and emits one broadcast; alice's shape is untouched.
\<close>

theorem checkAndResetOutOfBoundsShapes_witness:
  "boundaryWidth (state sampleRoom) = 2400 \<and> boundaryHeight (state sampleRoom) = 1800 \<and>
   (\<forall>n::nat. (0::real) \<le> 1 / 2 \<and> (1::real) / 2 < 1) \<and>
   checkAndResetOutOfBoundsShapes sampleRoom (\<lambda>n. 1 / 2) 0 7 =
     (sampleRoom\<lparr>state := sampleState\<lparr>players :=
        [(''alice'', alice),
         (''bob'', bob\<lparr>p_shapes := [bobShape\<lparr>s_x := 1200, s_y := 1750, s_lastUpdate := 7\<rparr>]\<rparr>)]\<rparr>\<rparr>,
      [PhysicsActionMsg ''bob'' ''bob_2_123'' (correction 1200 1750) 7 None], 1) \<and>
   outOfBoundsShapes (state sampleRoom) = [(''bob'', ''bob_2_123'')] \<and>
   map correctionTarget [PhysicsActionMsg ''bob'' ''bob_2_123'' (correction 1200 1750) 7 None] =
     map Some (outOfBoundsShapes (state sampleRoom))"
proof -
  have a: "boundaryWidth (state sampleRoom) = 2400" "boundaryHeight (state sampleRoom) = 1800"
    by (simp_all add: sampleRoom_def sampleState_def)
  have u: "\<forall>n::nat. (0::real) \<le> (\<lambda>n. 1 / 2) n \<and> (\<lambda>n. 1 / 2) n < (1::real)" by simp
  have t: "checkAndResetOutOfBoundsShapes sampleRoom (\<lambda>n. 1 / 2) 0 7 =
     (sampleRoom\<lparr>state := sampleState\<lparr>players :=
        [(''alice'', alice),
         (''bob'', bob\<lparr>p_shapes := [bobShape\<lparr>s_x := 1200, s_y := 1750, s_lastUpdate := 7\<rparr>]\<rparr>)]\<rparr>\<rparr>,
      [PhysicsActionMsg ''bob'' ''bob_2_123'' (correction 1200 1750) 7 None], 1)"
    by (simp add: checkAndResetOutOfBoundsShapes_def isOutOfBounds_def setPosition_def
        setVelocity_def sampleRoom_def sampleState_def alice_def bob_def aliceShape_def
        bobShape_def newShape_def)
  have o: "outOfBoundsShapes (state sampleRoom) = [(''bob'', ''bob_2_123'')]"
    by (simp add: outOfBoundsShapes_def isOutOfBounds_def sampleRoom_def sampleState_def
        alice_def bob_def aliceShape_def bobShape_def newShape_def)
  from checkAndResetOutOfBoundsShapes_repositions [OF a u t] a t o
  show ?thesis by simp
qed

text \<open>
  C5 as stated bounds the new x by 2200, which is the width of the interval the code
  draws from, not its upper end: with the random number 0.99 the shape lands at x = 2278.
\<close>

theorem boundary_correction_counterexample:
  "isOutOfBounds 2400 1800 bobShape \<and>
   checkAndResetOutOfBoundsShapes sampleRoom (\<lambda>n. 99 / 100) 0 7 =
     (sampleRoom\<lparr>state := sampleState\<lparr>players :=
        [(''alice'', alice),
         (''bob'', bob\<lparr>p_shapes := [bobShape\<lparr>s_x := 2278, s_y := 1750, s_lastUpdate := 7\<rparr>]\<rparr>)]\<rparr>\<rparr>,
      [PhysicsActionMsg ''bob'' ''bob_2_123'' (correction 2278 1750) 7 None], 1) \<and>
   \<not> s_x (bobShape\<lparr>s_x := 2278, s_y := 1750, s_lastUpdate := 7\<rparr>) \<le> 2200"
  by (simp add: checkAndResetOutOfBoundsShapes_def isOutOfBounds_def setPosition_def
      setVelocity_def sampleRoom_def sampleState_def alice_def bob_def aliceShape_def
      bobShape_def newShape_def)

section \<open>Leaving and rejoining\<close>

lemma getPlayer_modifyPlayer:
  "getPlayer (modifyPlayer pid f st) k =
     (if k = pid then map_option f (getPlayer st k) else getPlayer st k)"
proof -
  have "map_of (map (\<lambda>(k, p). if k = pid then (k, f p) else (k, p)) xs) k =
        (if k = pid then map_option f (map_of xs k) else map_of xs k)" for xs
    by (induction xs) auto
  then show ?thesis by (simp add: getPlayer_def modifyPlayer_def)
qed

lemma filter_modifyPlayer:
  "filter (\<lambda>(k, p). k \<noteq> pid) (players (modifyPlayer pid f st)) =
   filter (\<lambda>(k, p). k \<noteq> pid) (players st)"
proof -
  have "filter (\<lambda>(k, p). k \<noteq> pid) (map (\<lambda>(k, p). if k = pid then (k, f p) else (k, p)) xs) =
        filter (\<lambda>(k, p). k \<noteq> pid) xs" for xs
    by (induction xs) auto
  then show ?thesis by (simp add: modifyPlayer_def)
qed

lemma getPlayer_filtered: "map_of (filter (\<lambda>(k, p). k \<noteq> pid) xs) pid = None"
  by (induction xs) auto

lemma onLeave_bound:
  assumes bound: "sessionIdToPlayerId r sessionId = Some playerId" and ne: "playerId \<noteq> []"
  shows "onLeave r sessionId now =
           (r\<lparr>lastActivityTime := now,
              state := (state r)\<lparr>players := filter (\<lambda>(k, p). k \<noteq> playerId) (players (state r))\<rparr>,
              sessionIdToPlayerId := (sessionIdToPlayerId r)(sessionId := None),
              playerIdToSessionId := (playerIdToSessionId r)(playerId := None)\<rparr>,
            [PlayerRemoved playerId])"
proof (cases "getPlayer (state r) playerId")
  case None
  then have "playerId \<notin> fst ` set (players (state r))"
    by (simp add: getPlayer_def map_of_eq_None_iff)
  then have "filter (\<lambda>(k, p). k \<noteq> playerId) (players (state r)) = players (state r)"
    by (force simp: filter_id_conv)
  with None bound ne show ?thesis
    by (simp add: onLeave_def)
next
  case (Some p)
  have "snd (removePlayer (modifyPlayer playerId (\<lambda>p. removeAllShapes p now) (state r)) playerId) =
        (state r)\<lparr>players := filter (\<lambda>(k, p). k \<noteq> playerId) (players (state r))\<rparr>"
    using Some
    by (simp add: removePlayer_def getPlayer_modifyPlayer filter_modifyPlayer)
       (simp add: modifyPlayer_def)
  with Some bound ne show ?thesis
    by (simp add: onLeave_def)
qed

lemma getPlayer_createPlayer_new:
  assumes "getPlayer st playerId = None"
  shows "createPlayer st playerId now =
           (newPlayer playerId now, st\<lparr>players := players st @ [(playerId, newPlayer playerId now)]\<rparr>)"
    and "getPlayer (snd (createPlayer st playerId now)) playerId = Some (newPlayer playerId now)"
  using assms by (simp_all add: createPlayer_def getPlayer_def map_add_def)

lemma joinNew_fresh:
  assumes absent: "getPlayer (state r) playerId = None"
  shows "getPlayer (state (joinNew r sessionId playerId now e)) playerId =
           Some ((newPlayer playerId now)
                   \<lparr>p_shapes := [newShape (freshShapeId playerId now e)
                                   (r_x e * (boundaryWidth (state r) - 100) + 50)
                                   (boundaryHeight (state r) - 50) now (r_color e)]\<rparr>)"
proof -
  define st1 where "st1 = (state r)\<lparr>players := players (state r) @ [(playerId, newPlayer playerId now)]\<rparr>"
  have cp: "createPlayer (state r) playerId now = (newPlayer playerId now, st1)"
    unfolding st1_def by (rule getPlayer_createPlayer_new(1) [OF absent])
  have g1: "getPlayer st1 playerId = Some (newPlayer playerId now)"
    using getPlayer_createPlayer_new(2) [OF absent, of now] cp by simp
  have dims: "boundaryWidth st1 = boundaryWidth (state r)" "boundaryHeight st1 = boundaryHeight (state r)"
    by (simp_all add: st1_def)
  have "getPlayer (snd (createShapeForPlayer st1 playerId None now e)) playerId =
          Some (addShape (newPlayer playerId now)
                  (newShape (freshShapeId playerId now e)
                     (r_x e * (boundaryWidth (state r) - 100) + 50)
                     (boundaryHeight (state r) - 50) now (r_color e)) now)"
    by (simp add: createShapeForPlayer_def g1 Let_def getPlayer_modifyPlayer dims)
  then show ?thesis
    by (simp add: joinNew_def cp bindSession_def addShape_def newPlayer_def)
qed

lemma leave_sample:
  "onLeave sampleRoom ''sessA'' 10 =
     (sampleRoom\<lparr>lastActivityTime := 10,
                 state := sampleState\<lparr>players := [(''bob'', bob)]\<rparr>,
                 sessionIdToPlayerId := (sessionIdToPlayerId sampleRoom)(''sessA'' := None),
                 playerIdToSessionId := (playerIdToSessionId sampleRoom)(''alice'' := None)\<rparr>,
      [PlayerRemoved ''alice''])"
  by (simp add: onLeave_def removePlayer_def modifyPlayer_def getPlayer_def
      sampleRoom_def sampleState_def)

text \<open>
  When a session bound to a player leaves, the player is removed from the store at once,
  with all of its shapes and with no grace period, the other players stay as they were,
  the session is unbound, and a second leave of the same session removes nothing and
  emits nothing.
\<close>

lemma onLeave_removes_once:
  assumes bound: "sessionIdToPlayerId r sessionId = Some playerId" and ne: "playerId \<noteq> []"
  shows "case onLeave r sessionId now of
           (r', bs) \<Rightarrow>
             players (state r') = filter (\<lambda>(k, p). k \<noteq> playerId) (players (state r)) \<and>
             getPlayer (state r') playerId = None \<and>
             sessionIdToPlayerId r' sessionId = None \<and>
             bs = [PlayerRemoved playerId] \<and>
             onLeave r' sessionId now' = (r'\<lparr>lastActivityTime := now'\<rparr>, [])"
  unfolding onLeave_bound [OF bound ne]
  by (simp add: getPlayer_def getPlayer_filtered) (simp add: onLeave_def)

text \<open>alice's session leaves the sample room, twice.\<close>

lemma onLeave_removes_once_sample:
  "sessionIdToPlayerId sampleRoom ''sessA'' = Some ''alice'' \<and> ''alice'' \<noteq> [] \<and>
   (case onLeave sampleRoom ''sessA'' 10 of
      (r', bs) \<Rightarrow>
        players (state r') = [(''bob'', bob)] \<and>
        getPlayer (state r') ''alice'' = None \<and>
        bs = [PlayerRemoved ''alice''] \<and>
        onLeave r' ''sessA'' 11 = (r'\<lparr>lastActivityTime := 11\<rparr>, []))"
proof -
  have b: "sessionIdToPlayerId sampleRoom ''sessA'' = Some ''alice''"
    by (simp add: sampleRoom_def)
  have n: "''alice'' \<noteq> []" by simp
  have f: "filter (\<lambda>(k, p). k \<noteq> ''alice'') (players (state sampleRoom)) = [(''bob'', bob)]"
    by (simp add: sampleRoom_def sampleState_def)
  from onLeave_removes_once [OF b n, where now = 10 and now' = 11] b n show ?thesis
    by (simp add: f split: prod.splits)
qed

text \<open>
  The broadcast of \<^verbatim>\<open>onLeave\<close> comes after the branch that removes the player, not
  inside it: a session still bound to a player who is no longer in the store broadcasts
  \<^verbatim>\<open>player_removed\<close> for that player again, and removes nobody.
\<close>

lemma onLeave_absent_player_broadcasts:
  assumes bound: "sessionIdToPlayerId r sessionId = Some playerId" and ne: "playerId \<noteq> []"
      and absent: "getPlayer (state r) playerId = None"
  shows "snd (onLeave r sessionId now) = [PlayerRemoved playerId]"
    and "players (state (fst (onLeave r sessionId now))) = players (state r)"
  using assms by (simp_all add: onLeave_def)

lemma danaJoins_eval:
  "state (run (newRoom 0) danaJoins) =
     \<lparr>players =
        [(''dana'', \<lparr>p_id = ''dana'',
                     p_shapes = [newShape ''dana_1_123'' 1200 1750 1 ''#d6d03d''],
                     p_disconnected = False, p_lastActivity = 2\<rparr>)],
      serverTime = 0, boundaryWidth = 2400, boundaryHeight = 1800\<rparr>"
  "sessionIdToPlayerId (run (newRoom 0) danaJoins) ''sessD'' = Some ''dana''"
  "sessionIdToPlayerId (run (newRoom 0) danaJoins) ''sessD2'' = Some ''dana''"
proof -
  have id1: "freshShapeId ''dana'' 1 someEntropy = ''dana_1_123''"
    by (simp add: freshShapeId_def intToString_def natToString.simps someEntropy_def)
  have x: "r_x someEntropy = 1 / 2" "r_color someEntropy = ''#d6d03d''"
    by (simp_all add: someEntropy_def)
  show "state (run (newRoom 0) danaJoins) =
     \<lparr>players =
        [(''dana'', \<lparr>p_id = ''dana'',
                     p_shapes = [newShape ''dana_1_123'' 1200 1750 1 ''#d6d03d''],
                     p_disconnected = False, p_lastActivity = 2\<rparr>)],
      serverTime = 0, boundaryWidth = 2400, boundaryHeight = 1800\<rparr>"
    by (simp add: danaJoins_def newRoom_def onJoin_def joinNew_def reconnect_def
        markPlayerConnected_def setConnectionStatus_def createPlayer_def
        createShapeForPlayer_def bindSession_def modifyPlayer_def getPlayer_def addShape_def
        newPlayer_def id1 x Let_def)
  show "sessionIdToPlayerId (run (newRoom 0) danaJoins) ''sessD'' = Some ''dana''"
    by (simp add: danaJoins_def newRoom_def onJoin_def joinNew_def reconnect_def
        markPlayerConnected_def setConnectionStatus_def createPlayer_def
        createShapeForPlayer_def bindSession_def modifyPlayer_def getPlayer_def addShape_def
        newPlayer_def Let_def)
  show "sessionIdToPlayerId (run (newRoom 0) danaJoins) ''sessD2'' = Some ''dana''"
    by (simp add: danaJoins_def newRoom_def onJoin_def joinNew_def reconnect_def
        markPlayerConnected_def setConnectionStatus_def createPlayer_def
        createShapeForPlayer_def bindSession_def modifyPlayer_def getPlayer_def addShape_def
        newPlayer_def Let_def)
qed

lemma broadcasts_append:
  "broadcasts r (evs @ evs') = broadcasts r evs @ broadcasts (run r evs) evs'"
  by (induction evs arbitrary: r) simp_all

lemma run_append: "run r (evs @ evs') = run (run r evs) evs'"
  by (induction evs arbitrary: r) simp_all

text \<open>
  C8. dana joins a new room from the session \<^verbatim>\<open>sessD\<close>, joins again under the same
  identity from \<^verbatim>\<open>sessD2\<close>, and both sessions leave. There is one player dana; the
  first leave removes her and the store is empty; the second leave removes nobody; and
  the room has broadcast \<^verbatim>\<open>player_removed\<close> for dana twice.
\<close>

theorem double_leave_broadcasts_twice:
  "map fst (players (state (run (newRoom 0) danaJoins))) = [''dana''] \<and>
   players (state (run (newRoom 0) (danaJoins @ [Leave ''sessD'' 3]))) = [] \<and>
   players (state (run (newRoom 0) (danaJoins @ danaLeaves))) = [] \<and>
   broadcasts (newRoom 0) (danaJoins @ danaLeaves) =
     [PlayerRemoved ''dana'', PlayerRemoved ''dana'']"
proof -
  define r2 where "r2 = run (newRoom 0) danaJoins"
  have st2: "players (state r2) =
        [(''dana'', \<lparr>p_id = ''dana'',
                     p_shapes = [newShape ''dana_1_123'' 1200 1750 1 ''#d6d03d''],
                     p_disconnected = False, p_lastActivity = 2\<rparr>)]"
    and s1: "sessionIdToPlayerId r2 ''sessD'' = Some ''dana''"
    and s2: "sessionIdToPlayerId r2 ''sessD2'' = Some ''dana''"
    by (simp_all add: r2_def danaJoins_eval)
  have ne: "''dana'' \<noteq> []" by simp
  have quiet: "broadcasts (newRoom 0) danaJoins = []"
    by (simp add: danaJoins_def onJoin_def Let_def)
  define r3 where "r3 = fst (onLeave r2 ''sessD'' 3)"
  have l1: "onLeave r2 ''sessD'' 3 = (r3, [PlayerRemoved ''dana''])"
    unfolding r3_def onLeave_bound [OF s1 ne] by simp
  have st3: "players (state r3) = []"
    unfolding r3_def onLeave_bound [OF s1 ne] by (simp add: st2)
  have s3: "sessionIdToPlayerId r3 ''sessD2'' = Some ''dana''"
    unfolding r3_def onLeave_bound [OF s1 ne] by (simp add: s2)
  have gone: "getPlayer (state r3) ''dana'' = None"
    by (simp add: getPlayer_def st3)
  have l2: "snd (onLeave r3 ''sessD2'' 4) = [PlayerRemoved ''dana'']"
    "players (state (fst (onLeave r3 ''sessD2'' 4))) = []"
    using onLeave_absent_player_broadcasts [OF s3 ne gone, of 4] st3 by simp_all
  have one: "map fst (players (state (run (newRoom 0) danaJoins))) = [''dana'']"
    using st2 by (simp add: r2_def)
  have after1: "players (state (run (newRoom 0) (danaJoins @ [Leave ''sessD'' 3]))) = []"
    by (simp add: run_append r2_def [symmetric] l1 st3)
  have after2: "players (state (run (newRoom 0) (danaJoins @ danaLeaves))) = []"
    by (simp add: run_append r2_def [symmetric] danaLeaves_def l1 l2)
  have twice: "broadcasts (newRoom 0) (danaJoins @ danaLeaves) =
     [PlayerRemoved ''dana'', PlayerRemoved ''dana'']"
    by (simp add: broadcasts_append quiet r2_def [symmetric] danaLeaves_def l1 l2)
  from one after1 after2 twice show ?thesis by (intro conjI)
qed

text \<open>
  C2, as amended. A disconnect removes the player and its shapes at once, and a later join
  presenting the same identity creates a new player holding exactly one newly spawned
  shape (a fresh id, x drawn in the arena width less the edge margins, y 50 above the
  bottom edge, zero velocity), whatever shapes the player held before the disconnect.
\<close>

theorem leave_then_rejoin_fresh_shape:
  assumes bound: "sessionIdToPlayerId r sessionId = Some playerId" and ne: "playerId \<noteq> []"
  shows "case onLeave r sessionId now of
           (r1, bs1) \<Rightarrow>
             getPlayer (state r1) playerId = None \<and>
             (case onJoin r1 sessionId' (Some playerId) now' e of
                (r2, bs2) \<Rightarrow>
                  getPlayer (state r2) playerId =
                    Some \<lparr>p_id = playerId,
                          p_shapes = [newShape (freshShapeId playerId now' e)
                                        (r_x e * (boundaryWidth (state r) - 100) + 50)
                                        (boundaryHeight (state r) - 50) now' (r_color e)],
                          p_disconnected = False, p_lastActivity = now'\<rparr>)"
proof -
  define r1 where "r1 = fst (onLeave r sessionId now)"
  have r1: "onLeave r sessionId now = (r1, [PlayerRemoved playerId])"
    unfolding r1_def onLeave_bound [OF bound ne] by simp
  have gone: "getPlayer (state r1) playerId = None"
    unfolding r1_def onLeave_bound [OF bound ne]
    by (simp add: getPlayer_def getPlayer_filtered)
  have dims: "boundaryWidth (state r1) = boundaryWidth (state r)"
             "boundaryHeight (state r1) = boundaryHeight (state r)"
    unfolding r1_def onLeave_bound [OF bound ne] by simp_all
  have gone': "getPlayer (state (r1\<lparr>lastActivityTime := now'\<rparr>)) playerId = None"
    using gone by simp
  have "onJoin r1 sessionId' (Some playerId) now' e =
          (joinNew (r1\<lparr>lastActivityTime := now'\<rparr>) sessionId' playerId now' e, [])"
    using gone ne by (simp add: onJoin_def Let_def)
  with joinNew_fresh [OF gone', of sessionId' now' e] gone dims r1 show ?thesis
    by (simp add: newPlayer_def)
qed

text \<open>alice leaves the sample room at time 10 and joins again as alice at time 20.\<close>

theorem leave_then_rejoin_witness:
  "sessionIdToPlayerId sampleRoom ''sessA'' = Some ''alice'' \<and> ''alice'' \<noteq> [] \<and>
   p_shapes alice = [aliceShape] \<and>
   (case onLeave sampleRoom ''sessA'' 10 of
      (r1, bs1) \<Rightarrow>
        (case onJoin r1 ''sessA2'' (Some ''alice'') 20 someEntropy of
           (r2, bs2) \<Rightarrow>
             getPlayer (state r2) ''alice'' =
               Some \<lparr>p_id = ''alice'',
                     p_shapes = [newShape ''alice_20_123'' 1200 1750 20 ''#d6d03d''],
                     p_disconnected = False, p_lastActivity = 20\<rparr>))"
proof -
  have b: "sessionIdToPlayerId sampleRoom ''sessA'' = Some ''alice''"
    by (simp add: sampleRoom_def)
  have n: "''alice'' \<noteq> []" by simp
  have i: "freshShapeId ''alice'' 20 someEntropy = ''alice_20_123''"
    by (simp add: freshShapeId_def intToString_def natToString.simps someEntropy_def)
  have d: "boundaryWidth (state sampleRoom) = 2400" "boundaryHeight (state sampleRoom) = 1800"
    "r_x someEntropy = 1 / 2" "r_color someEntropy = ''#d6d03d''"
    by (simp_all add: sampleRoom_def sampleState_def someEntropy_def)
  from leave_then_rejoin_fresh_shape
         [OF b n, where now = 10 and now' = 20 and e = someEntropy and sessionId' = "''sessA2''"]
  show ?thesis
    using b n by (simp add: i d alice_def split: prod.splits)
qed

text \<open>
  C2 as stated makes the shape set after the rejoin the one before the disconnect: alice
  held the shape \<^verbatim>\<open>alice_1_123\<close> at (10, 20) and comes back with \<^verbatim>\<open>alice_20_123\<close>
  at (1200, 1750).
\<close>

theorem reconnect_idempotence_counterexample:
  "getPlayer (state sampleRoom) ''alice'' = Some alice \<and> p_shapes alice = [aliceShape] \<and>
   players (state (fst (onLeave sampleRoom ''sessA'' 10))) = [(''bob'', bob)] \<and>
   map_option p_shapes
     (getPlayer (state (fst (onJoin (fst (onLeave sampleRoom ''sessA'' 10)) ''sessA2''
                               (Some ''alice'') 20 someEntropy))) ''alice'') =
     Some [newShape ''alice_20_123'' 1200 1750 20 ''#d6d03d''] \<and>
   [newShape ''alice_20_123'' 1200 1750 20 ''#d6d03d''] \<noteq> [aliceShape]"
proof -
  define r1 where "r1 = fst (onLeave sampleRoom ''sessA'' 10)"
  have st1: "state r1 = sampleState\<lparr>players := [(''bob'', bob)]\<rparr>"
    by (simp add: r1_def leave_sample)
  have before: "getPlayer (state sampleRoom) ''alice'' = Some alice" "p_shapes alice = [aliceShape]"
    by (simp_all add: getPlayer_def sampleRoom_def sampleState_def alice_def)
  have id: "freshShapeId ''alice'' 20 someEntropy = ''alice_20_123''"
    by (simp add: freshShapeId_def intToString_def natToString.simps someEntropy_def)
  have after: "map_option p_shapes
     (getPlayer (state (fst (onJoin r1 ''sessA2'' (Some ''alice'') 20 someEntropy))) ''alice'') =
     Some [newShape ''alice_20_123'' 1200 1750 20 ''#d6d03d'']"
    by (simp add: onJoin_def joinNew_def createPlayer_def createShapeForPlayer_def
        bindSession_def modifyPlayer_def getPlayer_def addShape_def newPlayer_def id st1
        sampleState_def Let_def)
       (simp add: someEntropy_def)
  have differ: "[newShape ''alice_20_123'' 1200 1750 20 ''#d6d03d''] \<noteq> [aliceShape]"
    by (simp add: newShape_def aliceShape_def)
  have pl: "players (state r1) = [(''bob'', bob)]"
    by (simp add: st1)
  from before pl after differ show ?thesis
    unfolding r1_def by (intro conjI)
qed


text \<open>
  The reconnection branch of \<^verbatim>\<open>onJoin\<close> is taken when the player is still in the
  store. A player with exactly one shape keeps it; the loop that removes the extra shapes
  of a player with five skips every other one.
\<close>

lemma onJoin_reconnect_single_shape:
  assumes present: "getPlayer (state r) playerId = Some p"
      and one: "length (p_shapes p) = 1" and ne: "playerId \<noteq> []"
  shows "onJoin r sessionId (Some playerId) now e =
           (bindSession
              (r\<lparr>lastActivityTime := now,
                 state := modifyPlayer playerId (\<lambda>q. setConnectionStatus q True now) (state r)\<rparr>)
              playerId sessionId, [])"
    and "getPlayer (state (fst (onJoin r sessionId (Some playerId) now e))) playerId =
           Some (p\<lparr>p_disconnected := False, p_lastActivity := now\<rparr>)"
proof -
  show "onJoin r sessionId (Some playerId) now e =
           (bindSession
              (r\<lparr>lastActivityTime := now,
                 state := modifyPlayer playerId (\<lambda>q. setConnectionStatus q True now) (state r)\<rparr>)
              playerId sessionId, [])"
    using present one ne
    by (simp add: onJoin_def reconnect_def markPlayerConnected_def getPlayer_modifyPlayer
        setConnectionStatus_def Let_def)
  then show "getPlayer (state (fst (onJoin r sessionId (Some playerId) now e))) playerId =
           Some (p\<lparr>p_disconnected := False, p_lastActivity := now\<rparr>)"
    using present
    by (simp add: bindSession_def getPlayer_modifyPlayer setConnectionStatus_def)
qed

lemma removeExtras_skips:
  "map s_id (p_shapes (removeExtras 1 carol 9)) = [''carol_3_1'', ''carol_3_3'', ''carol_3_5'']"
  by (simp add: removeExtras.simps removeShape_def hasShape_def carol_def newShape_def)

section \<open>What every room keeps true\<close>

text \<open>
  The decimal digits and the minus sign are not underscores, so the player id can be read
  back from a generated shape id: two players never hold the same shape id.
\<close>

lemma natToString_no_underscore: "CHR ''_'' \<notin> set (natToString n)"
proof (induction n rule: natToString.induct)
  case (1 n)
  have digit: "CHR ''_'' \<noteq> ''0123456789'' ! m" if "m < 10" for m :: nat
  proof -
    from that have "''0123456789'' ! m \<in> set ''0123456789''"
      by (intro nth_mem) simp
    then show ?thesis by auto
  qed
  show ?case
  proof (cases "n < 10")
    case True
    then show ?thesis
      by (subst natToString.simps) (simp add: digit)
  next
    case False
    have "n mod 10 < 10" by simp
    with False "1.IH" digit [of "n mod 10"] show ?thesis
      by (subst natToString.simps) simp
  qed
qed

lemma intToString_no_underscore: "CHR ''_'' \<notin> set (intToString i)"
  by (simp add: intToString_def natToString_no_underscore)

lemma ownsId_fresh: "ownsId k (freshShapeId k now e)"
  unfolding ownsId_def freshShapeId_def
  by (intro exI [of _ "intToString now"] exI [of _ "intToString \<lfloor>r_id e * 1000\<rfloor>"])
     (simp add: intToString_no_underscore)

lemma first_occurrence_unique:
  "x \<notin> set xs \<Longrightarrow> x \<notin> set xs' \<Longrightarrow> xs @ x # ys = xs' @ x # ys' \<Longrightarrow> ys = ys'"
proof (induction xs arbitrary: xs')
  case Nil
  then show ?case by (cases xs') auto
next
  case (Cons a xs)
  then show ?case by (cases xs') auto
qed

lemma split_at_last_underscore:
  assumes "CHR ''_'' \<notin> set u" "CHR ''_'' \<notin> set u'" "a @ ''_'' @ u = a' @ ''_'' @ u'"
  shows "a = a'"
proof -
  from assms(3) have "rev (a @ ''_'' @ u) = rev (a' @ ''_'' @ u')" by simp
  then have "rev u @ CHR ''_'' # rev a = rev u' @ CHR ''_'' # rev a'" by simp
  moreover have "CHR ''_'' \<notin> set (rev u)" "CHR ''_'' \<notin> set (rev u')"
    using assms(1,2) by simp_all
  ultimately have "rev a = rev a'"
    by (rule first_occurrence_unique [rotated 2])
  then show ?thesis by simp
qed

lemma ownsId_inj:
  assumes "ownsId k i" "ownsId k' i"
  shows "k = k'"
proof -
  from assms(1) obtain t u where 1: "i = k @ ''_'' @ t @ ''_'' @ u"
    "CHR ''_'' \<notin> set t" "CHR ''_'' \<notin> set u"
    by (auto simp: ownsId_def)
  from assms(2) obtain t' u' where 2: "i = k' @ ''_'' @ t' @ ''_'' @ u'"
    "CHR ''_'' \<notin> set t'" "CHR ''_'' \<notin> set u'"
    by (auto simp: ownsId_def)
  from 1(1) 2(1) have "(k @ ''_'' @ t) @ ''_'' @ u = (k' @ ''_'' @ t') @ ''_'' @ u'"
    by simp
  from split_at_last_underscore [OF 1(3) 2(3) this]
  have "k @ ''_'' @ t = k' @ ''_'' @ t'" .
  from split_at_last_underscore [OF 1(2) 2(2) this] show ?thesis .
qed

lemma wellOwned_distinct:
  "wellOwned sk \<Longrightarrow> distinct (concat (map snd sk))"
proof (induction sk)
  case Nil
  show ?case by simp
next
  case (Cons e sk)
  obtain k ids where e: "e = (k, ids)" by (cases e)
  from Cons.prems e have ok: "okIds k ids" and notin: "k \<notin> fst ` set sk"
    and rest: "wellOwned sk"
    by (auto simp: wellOwned_def)
  from ok have d: "distinct ids"
    by (cases ids) (auto simp: okIds_def)
  have disj: "set ids \<inter> set (concat (map snd sk)) = {}"
  proof (rule ccontr)
    assume "set ids \<inter> set (concat (map snd sk)) \<noteq> {}"
    then obtain i k' ids' where i: "i \<in> set ids" "(k', ids') \<in> set sk" "i \<in> set ids'"
      by auto
    from rest i(2) have "okIds k' ids'" by (auto simp: wellOwned_def)
    with i(3) have "ownsId k' i" by (simp add: okIds_def)
    moreover from ok i(1) have "ownsId k i" by (simp add: okIds_def)
    ultimately have "k = k'" by (rule ownsId_inj [rotated])
    with i(2) notin show False by force
  qed
  from d disj Cons.IH [OF rest] show ?case by (simp add: e)
qed

lemma shapeIds_skeleton: "shapeIds st = concat (map snd (skeleton st))"
  by (simp add: shapeIds_def skeleton_def comp_def case_prod_unfold)


lemma okIds_sub:
  "okIds k ids \<Longrightarrow> set ids' \<subseteq> set ids \<Longrightarrow> length ids' \<le> length ids \<Longrightarrow> okIds k ids'"
  by (auto simp: okIds_def)

lemma removeFirst_sub:
  "set (map s_id (removeFirst i ss)) \<subseteq> set (map s_id ss) \<and> length (removeFirst i ss) \<le> length ss"
  by (induction ss) auto

lemma okIds_removeShape:
  "okIds k (map s_id (p_shapes p)) \<Longrightarrow> okIds k (map s_id (p_shapes (removeShape p i now)))"
proof (cases "hasShape i (p_shapes p)")
  case True
  assume ok: "okIds k (map s_id (p_shapes p))"
  from removeFirst_sub [of i "p_shapes p"]
  have "okIds k (map s_id (removeFirst i (p_shapes p)))"
    by (intro okIds_sub [OF ok]) simp_all
  with True show ?thesis by (simp add: removeShape_def)
next
  case False
  assume "okIds k (map s_id (p_shapes p))"
  with False show ?thesis by (simp add: removeShape_def)
qed

lemma okIds_removeExtras:
  "okIds k (map s_id (p_shapes p)) \<Longrightarrow> okIds k (map s_id (p_shapes (removeExtras n p now)))"
proof (induction n p now rule: removeExtras.induct)
  case (1 i p now)
  show ?case
  proof (cases "i < length (p_shapes p)")
    case True
    with "1.IH" [OF True okIds_removeShape [OF "1.prems"]] show ?thesis
      by (subst removeExtras.simps) simp
  next
    case False
    with "1.prems" show ?thesis
      by (subst removeExtras.simps) simp
  qed
qed

lemma ids_updateFirst:
  "(\<And>s. s_id (g s) = s_id s) \<Longrightarrow> map s_id (updateFirst i g ss) = map s_id ss"
  by (induction ss) auto

lemma ids_applyShapeData:
  "map s_id (p_shapes (applyShapeData w h now d p)) = map s_id (p_shapes p)"
  by (simp add: applyShapeData_def ids_updateFirst setPosition_def setVelocity_def
      split: option.splits)

lemma ids_fold_applyShapeData:
  "map s_id (p_shapes (fold (applyShapeData w h now) ds p)) = map s_id (p_shapes p)"
  by (induction ds arbitrary: p) (simp_all add: ids_applyShapeData)

lemma skeleton_modifyPlayer:
  "skeleton (modifyPlayer pid f st) =
     map (\<lambda>(k, p). (k, map s_id (p_shapes (if k = pid then f p else p)))) (players st)"
  by (simp add: skeleton_def modifyPlayer_def comp_def case_prod_unfold)

lemma wellOwned_modifyPlayer:
  assumes w: "wellOwned (skeleton st)"
      and f: "\<And>p. (pid, p) \<in> set (players st) \<Longrightarrow> okIds pid (map s_id (p_shapes p)) \<Longrightarrow>
                  okIds pid (map s_id (p_shapes (f p)))"
  shows "wellOwned (skeleton (modifyPlayer pid f st))"
proof -
  have keys: "map fst (skeleton (modifyPlayer pid f st)) = map fst (skeleton st)"
    unfolding skeleton_modifyPlayer by (simp add: skeleton_def comp_def case_prod_unfold)
  have each: "okIds k ids" if "(k, ids) \<in> set (skeleton (modifyPlayer pid f st))" for k ids
  proof -
    from that obtain p where p: "(k, p) \<in> set (players st)"
      and ids: "ids = map s_id (p_shapes (if k = pid then f p else p))"
      by (auto simp: skeleton_modifyPlayer)
    from p have "(k, map s_id (p_shapes p)) \<in> set (skeleton st)"
      by (force simp: skeleton_def)
    with w have ok: "okIds k (map s_id (p_shapes p))"
      by (auto simp: wellOwned_def)
    show ?thesis
    proof (cases "k = pid")
      case True
      with f [of p] p ok ids show ?thesis by simp
    next
      case False
      with ok ids show ?thesis by simp
    qed
  qed
  from w keys each show ?thesis
    by (auto simp: wellOwned_def)
qed

lemma wellOwned_filter:
  assumes "wellOwned (skeleton st)"
  shows "wellOwned (skeleton (st\<lparr>players := filter P (players st)\<rparr>))"
proof -
  have sk: "skeleton (st\<lparr>players := filter P (players st)\<rparr>) =
            map (\<lambda>(k, p). (k, map s_id (p_shapes p))) (filter P (players st))"
    by (simp add: skeleton_def)
  have keys: "map fst (skeleton (st\<lparr>players := filter P (players st)\<rparr>)) =
              map fst (filter P (players st))"
    by (simp add: sk comp_def case_prod_unfold)
  from assms have "distinct (map fst (players st))"
    by (simp add: wellOwned_def skeleton_def comp_def case_prod_unfold)
  then have d: "distinct (map fst (filter P (players st)))"
    by (rule distinct_map_filter)
  have "set (skeleton (st\<lparr>players := filter P (players st)\<rparr>)) \<subseteq> set (skeleton st)"
    by (auto simp: sk skeleton_def)
  with assms d keys show ?thesis
    by (auto simp: wellOwned_def)
qed


lemma skeleton_fields [simp]:
  "skeleton (st\<lparr>serverTime := t\<rparr>) = skeleton st"
  by (simp add: skeleton_def)

lemma wellOwned_removePlayer:
  "wellOwned (skeleton st) \<Longrightarrow> wellOwned (skeleton (snd (removePlayer st pid)))"
  by (simp add: removePlayer_def wellOwned_filter)

lemma wellOwned_cleanup:
  assumes "wellOwned (skeleton st)"
  shows "wellOwned (skeleton (snd (cleanupInactivePlayers st m now)))"
proof -
  have "wellOwned (skeleton (fold (\<lambda>k s. snd (removePlayer s k)) ids st))"
    if "wellOwned (skeleton st)" for ids st
    using that by (induction ids arbitrary: st) (simp_all add: wellOwned_removePlayer)
  with assms show ?thesis
    by (simp add: cleanupInactivePlayers_def Let_def)
qed

lemma wellOwned_createPlayer:
  assumes "wellOwned (skeleton st)"
  shows "wellOwned (skeleton (snd (createPlayer st pid now)))"
proof (cases "getPlayer st pid")
  case None
  then have "pid \<notin> fst ` set (players st)"
    by (simp add: getPlayer_def map_of_eq_None_iff)
  then have "pid \<notin> fst ` set (skeleton st)"
    by (force simp: skeleton_def)
  with assms None show ?thesis
    by (auto simp: createPlayer_def wellOwned_def skeleton_def newPlayer_def okIds_def)
next
  case (Some p)
  with assms show ?thesis by (simp add: createPlayer_def)
qed

lemma players_distinct: "wellOwned (skeleton st) \<Longrightarrow> distinct (map fst (players st))"
  by (simp add: wellOwned_def skeleton_def comp_def case_prod_unfold)

lemma wellOwned_createShape:
  assumes w: "wellOwned (skeleton st)"
      and p: "getPlayer st pid = Some p" and empty: "p_shapes p = []"
      and c: "c = None \<or> c = Some (freshShapeId pid now e)"
  shows "wellOwned (skeleton (snd (createShapeForPlayer st pid c now e)))"
proof -
  define i where "i = (case c of None \<Rightarrow> freshShapeId pid now e
                       | Some c' \<Rightarrow> if c' = [] then freshShapeId pid now e else c')"
  from c have i: "i = freshShapeId pid now e"
    by (auto simp: i_def)
  define shape where "shape = newShape i (r_x e * (boundaryWidth st - 100) + 50)
                                (boundaryHeight st - 50) now (r_color e)"
  have res: "snd (createShapeForPlayer st pid c now e) =
             modifyPlayer pid (\<lambda>q. addShape q shape now) st"
    using p by (simp add: createShapeForPlayer_def Let_def shape_def i_def)
  have "okIds pid (map s_id (p_shapes (addShape q shape now)))"
    if "(pid, q) \<in> set (players st)" for q
  proof -
    from players_distinct [OF w] that have "map_of (players st) pid = Some q"
      by (rule map_of_is_SomeI)
    with p have "q = p" by (simp add: getPlayer_def)
    with empty show ?thesis
      by (simp add: addShape_def okIds_def shape_def newShape_def i ownsId_fresh)
  qed
  with w show ?thesis
    unfolding res by (intro wellOwned_modifyPlayer)
qed

lemma okIds_removeAllShapes:
  "okIds k (map s_id (p_shapes p)) \<Longrightarrow> okIds k (map s_id (p_shapes (removeAllShapes p now)))"
proof (induction p now rule: removeAllShapes.induct)
  case (1 p now)
  show ?case
  proof (cases "p_shapes p")
    case Nil
    with "1.prems" show ?thesis
      by (subst removeAllShapes.simps) simp
  next
    case (Cons s ss)
    with "1.IH" [OF Cons okIds_removeShape [OF "1.prems"]] show ?thesis
      by (subst removeAllShapes.simps) simp
  qed
qed

lemma ids_resetShapes:
  "resetShapes rnd now bw bh pid ss k = (ss', bs, k') \<Longrightarrow> map s_id ss' = map s_id ss"
proof (induction ss arbitrary: k ss' bs k')
  case Nil
  then show ?case by simp
next
  case (Cons s ss)
  show ?case
  proof (cases "isOutOfBounds bw bh s")
    case True
    obtain r1 b1 k1 where rec: "resetShapes rnd now bw bh pid ss (Suc k) = (r1, b1, k1)"
      by (cases "resetShapes rnd now bw bh pid ss (Suc k)") auto
    from Cons.prems True rec Cons.IH [OF rec] show ?thesis
      by (auto simp: Let_def setPosition_def setVelocity_def)
  next
    case False
    obtain r1 b1 k1 where rec: "resetShapes rnd now bw bh pid ss k = (r1, b1, k1)"
      by (cases "resetShapes rnd now bw bh pid ss k") auto
    from Cons.prems False rec Cons.IH [OF rec] show ?thesis
      by auto
  qed
qed

lemma skeleton_resetPlayers:
  "resetPlayers rnd now bw bh ps k = (ps', bs, k') \<Longrightarrow>
   map (\<lambda>(k, p). (k, map s_id (p_shapes p))) ps' = map (\<lambda>(k, p). (k, map s_id (p_shapes p))) ps"
proof (induction ps arbitrary: k ps' bs k')
  case Nil
  then show ?case by simp
next
  case (Cons e ps)
  obtain pid p where e: "e = (pid, p)" by (cases e)
  obtain s1 b1 k1 where sh: "resetShapes rnd now bw bh pid (p_shapes p) k = (s1, b1, k1)"
    by (cases "resetShapes rnd now bw bh pid (p_shapes p) k") auto
  obtain r2 b2 k2 where rec: "resetPlayers rnd now bw bh ps k1 = (r2, b2, k2)"
    by (cases "resetPlayers rnd now bw bh ps k1") auto
  from Cons.prems e sh rec have res: "ps' = (pid, p\<lparr>p_shapes := s1\<rparr>) # r2"
    by simp
  from ids_resetShapes [OF sh] Cons.IH [OF rec] show ?case
    by (simp add: res e)
qed

lemma skeleton_checkAndReset:
  "skeleton (state (fst (checkAndResetOutOfBoundsShapes r rnd k now))) = skeleton (state r)"
proof -
  obtain ps bs k' where rp:
    "resetPlayers rnd now (boundaryWidth (state r)) (boundaryHeight (state r))
       (players (state r)) k = (ps, bs, k')"
    by (cases "resetPlayers rnd now (boundaryWidth (state r)) (boundaryHeight (state r))
                 (players (state r)) k") auto
  from skeleton_resetPlayers [OF rp] rp show ?thesis
    by (simp add: checkAndResetOutOfBoundsShapes_def skeleton_def)
qed


lemma state_bindSession [simp]: "state (bindSession r pid sid) = state r"
  by (simp add: bindSession_def)

lemma wellOwned_joinNew:
  assumes w: "wellOwned (skeleton (state r))"
  shows "wellOwned (skeleton (state (joinNew r sid pid now e)))"
proof -
  obtain player st1 where cp: "createPlayer (state r) pid now = (player, st1)"
    by (cases "createPlayer (state r) pid now")
  from wellOwned_createPlayer [OF w, of pid now] cp have w1: "wellOwned (skeleton st1)"
    by simp
  have g1: "getPlayer st1 pid = Some player"
    using cp by (auto simp: createPlayer_def getPlayer_def map_add_def split: option.splits)
  show ?thesis
  proof (cases "length (p_shapes player) = 0")
    case True
    then have "p_shapes player = []" by simp
    from wellOwned_createShape [OF w1 g1 this, of None now e] True show ?thesis
      by (simp add: joinNew_def cp)
  next
    case False
    with w1 show ?thesis by (simp add: joinNew_def cp)
  qed
qed

lemma wellOwned_reconnect:
  assumes w: "wellOwned (skeleton (state r))"
  shows "wellOwned (skeleton (state (reconnect r sid pid now e)))"
proof -
  define st1 where "st1 = snd (markPlayerConnected (state r) pid True now)"
  have w1: "wellOwned (skeleton st1)"
    unfolding st1_def markPlayerConnected_def
    using w by (auto split: option.splits intro!: wellOwned_modifyPlayer
        simp: setConnectionStatus_def)
  show ?thesis
  proof (cases "getPlayer st1 pid")
    case None
    with w1 show ?thesis
      by (simp add: reconnect_def Let_def st1_def [symmetric])
  next
    case (Some existing)
    consider "length (p_shapes existing) = 0" | "length (p_shapes existing) > 1"
      | "length (p_shapes existing) = 1" by linarith
    then show ?thesis
    proof cases
      case 1
      then have "p_shapes existing = []" by simp
      from wellOwned_createShape [OF w1 Some this, of None now e] 1 Some show ?thesis
        by (simp add: reconnect_def Let_def st1_def [symmetric])
    next
      case 2
      have "wellOwned (skeleton (modifyPlayer pid (\<lambda>p. removeExtras 1 p now) st1))"
        using w1 by (intro wellOwned_modifyPlayer okIds_removeExtras)
      moreover from 2 have "p_shapes existing \<noteq> []" by auto
      ultimately show ?thesis
        using 2 Some by (simp add: reconnect_def Let_def st1_def [symmetric])
    next
      case 3
      with w1 Some show ?thesis
        by (simp add: reconnect_def Let_def st1_def [symmetric])
    qed
  qed
qed

lemma wellOwned_onJoin:
  assumes "wellOwned (skeleton (state r))"
  shows "wellOwned (skeleton (state (fst (onJoin r sid opt now e))))"
proof -
  from assms have "wellOwned (skeleton (state (r\<lparr>lastActivityTime := now\<rparr>)))" by simp
  then show ?thesis
    by (auto simp: onJoin_def Let_def wellOwned_joinNew wellOwned_reconnect split: option.splits)
qed

lemma wellOwned_onLeave:
  assumes w: "wellOwned (skeleton (state r))"
  shows "wellOwned (skeleton (state (fst (onLeave r sid now))))"
proof -
  have "wellOwned (skeleton (snd (removePlayer
          (modifyPlayer pid (\<lambda>p. removeAllShapes p now) (state r)) pid)))" for pid
    using w by (intro wellOwned_removePlayer wellOwned_modifyPlayer okIds_removeAllShapes)
  with w show ?thesis
    by (auto simp: onLeave_def Let_def split: option.splits)
qed

lemma wellOwned_update:
  assumes w: "wellOwned (skeleton (state r))"
  shows "wellOwned (skeleton (state (fst (update r now))))"
proof -
  from w have "wellOwned (skeleton ((state r)\<lparr>serverTime := now\<rparr>))" by simp
  from this wellOwned_cleanup [OF this] show ?thesis
    by (simp add: update_def Let_def)
qed

lemma wellOwned_handleShapeUpdate:
  assumes w: "wellOwned (skeleton (state r))"
  shows "wellOwned (skeleton (state (fst (handleShapeUpdate r sid shapes now))))"
proof -
  have "wellOwned (skeleton (modifyPlayer pid
          (\<lambda>p. (fold (applyShapeData bw bh now) ds p)\<lparr>p_lastActivity := now\<rparr>) (state r)))"
    for pid bw bh ds
    using w by (intro wellOwned_modifyPlayer) (simp_all add: ids_fold_applyShapeData)
  with w show ?thesis
    by (auto simp: handleShapeUpdate_def split: option.splits)
qed

lemma wellOwned_acceptAction:
  assumes w: "wellOwned (skeleton (state r))" and g: "\<And>s. s_id (g s) = s_id s"
  shows "wellOwned (skeleton (state (fst (acceptAction r sid pid action g now))))"
proof -
  have "wellOwned (skeleton (modifyPlayer pid
          (\<lambda>p. p\<lparr>p_shapes := updateFirst (a_shapeId action) g (p_shapes p),
                 p_lastActivity := now\<rparr>) (state r)))"
    using w by (intro wellOwned_modifyPlayer) (simp_all add: ids_updateFirst [of g, OF g])
  then show ?thesis by (simp add: acceptAction_def)
qed

lemma wellOwned_handlePhysicsAction:
  assumes w: "wellOwned (skeleton (state r))"
  shows "wellOwned (skeleton (state (fst (handlePhysicsAction r sid msg now))))"
  using w
  by (auto simp: handlePhysicsAction_def Let_def setPosition_def setVelocity_def
      split: option.splits intro!: wellOwned_acceptAction)

lemma wellOwned_handleCreateShape:
  assumes w: "wellOwned (skeleton (state r))"
  shows "wellOwned (skeleton (state (fst (handleCreateShape r sid now e))))"
  using w
  by (auto simp: handleCreateShape_def split: option.splits intro!: wellOwned_createShape)

lemma wellOwned_handleRemoveShape:
  assumes w: "wellOwned (skeleton (state r))"
  shows "wellOwned (skeleton (state (fst (handleRemoveShape r sid shapeId now))))"
  using w
  by (auto simp: handleRemoveShape_def split: option.splits
      intro!: wellOwned_modifyPlayer okIds_removeShape)

lemma wellOwned_handleChangeBlockColor:
  assumes w: "wellOwned (skeleton (state r))"
  shows "wellOwned (skeleton (state (fst (handleChangeBlockColor r sid color now))))"
  using w
  by (auto simp: handleChangeBlockColor_def setColor_def comp_def split: option.splits
      intro!: wellOwned_modifyPlayer)

lemma wellOwned_onUpdate:
  assumes w: "wellOwned (skeleton (state r))"
  shows "wellOwned (skeleton (state (fst (onUpdate r dt rnd k now))))"
proof -
  obtain r' bs k' where t: "checkAndResetOutOfBoundsShapes r rnd k now = (r', bs, k')"
    by (cases "checkAndResetOutOfBoundsShapes r rnd k now") auto
  from skeleton_checkAndReset [of r rnd k now] t w have w': "wellOwned (skeleton (state r'))"
    by simp
  from w w' wellOwned_cleanup [OF w] wellOwned_cleanup [OF w'] show ?thesis
    by (simp add: onUpdate_def t)
qed

lemma wellOwned_step:
  "wellOwned (skeleton (state r)) \<Longrightarrow> wellOwned (skeleton (state (fst (step r ev))))"
proof (cases ev)
  case (BoundaryTick rnd k now)
  assume w: "wellOwned (skeleton (state r))"
  obtain r' bs k' where t: "checkAndResetOutOfBoundsShapes r rnd k now = (r', bs, k')"
    by (cases "checkAndResetOutOfBoundsShapes r rnd k now") auto
  from skeleton_checkAndReset [of r rnd k now] t w BoundaryTick show ?thesis
    by simp
next
  case (UpdateTick dt rnd k now)
  assume "wellOwned (skeleton (state r))"
  from wellOwned_onUpdate [OF this, of dt rnd k now] UpdateTick show ?thesis
    by (cases "onUpdate r dt rnd k now") simp
qed (simp_all add: wellOwned_onJoin wellOwned_onLeave wellOwned_update
      wellOwned_handleShapeUpdate wellOwned_handlePhysicsAction wellOwned_handleCreateShape
      wellOwned_handleRemoveShape wellOwned_handleChangeBlockColor)

lemma wellOwned_run:
  "wellOwned (skeleton (state r)) \<Longrightarrow> wellOwned (skeleton (state (run r evs)))"
  by (induction evs arbitrary: r) (simp_all add: wellOwned_step)

lemma wellOwned_newRoom: "wellOwned (skeleton (state (newRoom now)))"
  by (simp add: newRoom_def skeleton_def wellOwned_def)

lemma run_unique_shapeIds: "distinct (shapeIds (state (run (newRoom t0) evs)))"
  unfolding shapeIds_skeleton
  by (intro wellOwned_distinct wellOwned_run wellOwned_newRoom)


text \<open>
  C1. In every room that a sequence of events has produced from a new room, when the
  session of player \<open>a\<close> sends a \<^verbatim>\<open>physics_action\<close> whose \<^verbatim>\<open>shapeId\<close> names a
  shape of another player \<open>b\<close>, the room is left exactly as it was (no position,
  velocity, angle or timestamp changes) and nothing is broadcast.
\<close>

theorem handlePhysicsAction_foreign_shape_noop:
  assumes reach: "r = run (newRoom t0) evs"
      and sender: "sessionIdToPlayerId r sessionId = Some a"
      and other: "getPlayer (state r) b = Some pb"
      and ne: "a \<noteq> b"
      and owned: "hasShape (a_shapeId action) (p_shapes pb)"
  shows "handlePhysicsAction r sessionId (Some action) now = (r, [])"
proof -
  have "distinct (shapeIds (state r))"
    unfolding reach by (rule run_unique_shapeIds)
  with sender other ne owned show ?thesis
    by (rule foreign_shape_noop_unique)
qed

lemma joinedRoom_eval:
  "state joinedRoom =
     \<lparr>players =
        [(''alice'', \<lparr>p_id = ''alice'',
                      p_shapes = [newShape ''alice_1_123'' 1200 1750 1 ''#d6d03d''],
                      p_disconnected = False, p_lastActivity = 1\<rparr>),
         (''bob'', \<lparr>p_id = ''bob'',
                    p_shapes = [newShape ''bob_2_123'' 1200 1750 2 ''#d6d03d''],
                    p_disconnected = False, p_lastActivity = 2\<rparr>)],
      serverTime = 0, boundaryWidth = 2400, boundaryHeight = 1800\<rparr>"
  "sessionIdToPlayerId joinedRoom ''sessA'' = Some ''alice''"
proof -
  have id1: "freshShapeId ''alice'' 1 someEntropy = ''alice_1_123''"
    and id2: "freshShapeId ''bob'' 2 someEntropy = ''bob_2_123''"
    by (simp_all add: freshShapeId_def intToString_def natToString.simps someEntropy_def)
  have x: "r_x someEntropy = 1 / 2" "r_color someEntropy = ''#d6d03d''"
    by (simp_all add: someEntropy_def)
  show "state joinedRoom =
     \<lparr>players =
        [(''alice'', \<lparr>p_id = ''alice'',
                      p_shapes = [newShape ''alice_1_123'' 1200 1750 1 ''#d6d03d''],
                      p_disconnected = False, p_lastActivity = 1\<rparr>),
         (''bob'', \<lparr>p_id = ''bob'',
                    p_shapes = [newShape ''bob_2_123'' 1200 1750 2 ''#d6d03d''],
                    p_disconnected = False, p_lastActivity = 2\<rparr>)],
      serverTime = 0, boundaryWidth = 2400, boundaryHeight = 1800\<rparr>"
    by (simp add: joinedRoom_def newRoom_def onJoin_def joinNew_def createPlayer_def
        createShapeForPlayer_def bindSession_def modifyPlayer_def getPlayer_def addShape_def
        newPlayer_def id1 id2 x Let_def)
  show "sessionIdToPlayerId joinedRoom ''sessA'' = Some ''alice''"
    by (simp add: joinedRoom_def newRoom_def onJoin_def joinNew_def createPlayer_def
        createShapeForPlayer_def bindSession_def modifyPlayer_def getPlayer_def addShape_def
        newPlayer_def Let_def)
qed

theorem handlePhysicsAction_foreign_shape_witness:
  "joinedRoom = run (newRoom 0) [Join ''sessA'' (Some ''alice'') 1 someEntropy,
                                 Join ''sessB'' (Some ''bob'') 2 someEntropy] \<and>
   sessionIdToPlayerId joinedRoom ''sessA'' = Some ''alice'' \<and>
   getPlayer (state joinedRoom) ''bob'' =
     Some \<lparr>p_id = ''bob'', p_shapes = [newShape ''bob_2_123'' 1200 1750 2 ''#d6d03d''],
           p_disconnected = False, p_lastActivity = 2\<rparr> \<and>
   ''alice'' \<noteq> ''bob'' \<and>
   hasShape (a_shapeId grab) [newShape ''bob_2_123'' 1200 1750 2 ''#d6d03d''] \<and>
   handlePhysicsAction joinedRoom ''sessA'' (Some grab) 5 = (joinedRoom, [])"
proof -
  have reach: "joinedRoom = run (newRoom 0) [Join ''sessA'' (Some ''alice'') 1 someEntropy,
                                 Join ''sessB'' (Some ''bob'') 2 someEntropy]"
    by (rule joinedRoom_def)
  have sender: "sessionIdToPlayerId joinedRoom ''sessA'' = Some ''alice''"
    by (rule joinedRoom_eval(2))
  have other: "getPlayer (state joinedRoom) ''bob'' =
     Some \<lparr>p_id = ''bob'', p_shapes = [newShape ''bob_2_123'' 1200 1750 2 ''#d6d03d''],
           p_disconnected = False, p_lastActivity = 2\<rparr>"
    by (simp add: joinedRoom_eval(1) getPlayer_def)
  have ne: "''alice'' \<noteq> ''bob''" by simp
  have owned: "hasShape (a_shapeId grab)
                 (p_shapes \<lparr>p_id = ''bob'', p_shapes = [newShape ''bob_2_123'' 1200 1750 2 ''#d6d03d''],
                            p_disconnected = False, p_lastActivity = 2\<rparr>)"
    by (simp add: hasShape_def grab_def newShape_def)
  from handlePhysicsAction_foreign_shape_noop [OF reach sender other ne owned, of 5]
       reach sender other ne owned
  show ?thesis by simp
qed

section \<open>No grace state\<close>

text \<open>
  The room never sets the disconnected flag: \<^verbatim>\<open>onLeave\<close> removes the player, and
  \<^verbatim>\<open>onJoin\<close> is the only caller of \<^verbatim>\<open>markPlayerConnected\<close>, with \<open>True\<close>. So in
  every room that events have produced from a new room all players are connected, and the
  inactivity cleanup, which removes disconnected players only, removes nobody.
\<close>

lemma allConnected_modifyPlayer:
  "allConnected st \<Longrightarrow> (\<And>p. \<not> p_disconnected p \<Longrightarrow> \<not> p_disconnected (f p)) \<Longrightarrow>
   allConnected (modifyPlayer pid f st)"
  by (fastforce simp: allConnected_def modifyPlayer_def list_all_iff split: if_splits)

lemma allConnected_filter:
  "allConnected st \<Longrightarrow> allConnected (st\<lparr>players := filter P (players st)\<rparr>)"
  by (auto simp: allConnected_def list_all_iff)

lemma allConnected_serverTime [simp]:
  "allConnected (st\<lparr>serverTime := t\<rparr>) = allConnected st"
  by (simp add: allConnected_def)

lemma disconnected_removeShape [simp]:
  "p_disconnected (removeShape p i now) = p_disconnected p"
  by (simp add: removeShape_def)

lemma disconnected_removeExtras [simp]:
  "p_disconnected (removeExtras n p now) = p_disconnected p"
proof (induction n p now rule: removeExtras.induct)
  case (1 i p now)
  then show ?case by (subst removeExtras.simps) simp
qed

lemma disconnected_removeAllShapes [simp]:
  "p_disconnected (removeAllShapes p now) = p_disconnected p"
proof (induction p now rule: removeAllShapes.induct)
  case (1 p now)
  then show ?case by (subst removeAllShapes.simps) (simp split: list.splits)
qed

lemma disconnected_applyShapeData [simp]:
  "p_disconnected (applyShapeData w h now d p) = p_disconnected p"
  by (simp add: applyShapeData_def split: option.splits)

lemma disconnected_fold_applyShapeData [simp]:
  "p_disconnected (fold (applyShapeData w h now) ds p) = p_disconnected p"
  by (induction ds arbitrary: p) simp_all

lemma allConnected_removePlayer:
  "allConnected st \<Longrightarrow> allConnected (snd (removePlayer st pid))"
  by (simp add: removePlayer_def allConnected_filter)

lemma allConnected_cleanup:
  assumes "allConnected st"
  shows "allConnected (snd (cleanupInactivePlayers st m now))"
proof -
  have "allConnected (fold (\<lambda>k s. snd (removePlayer s k)) ids st)"
    if "allConnected st" for ids st
    using that by (induction ids arbitrary: st) (simp_all add: allConnected_removePlayer)
  with assms show ?thesis
    by (simp add: cleanupInactivePlayers_def Let_def)
qed

lemma allConnected_createPlayer:
  "allConnected st \<Longrightarrow> allConnected (snd (createPlayer st pid now))"
  by (auto simp: createPlayer_def allConnected_def newPlayer_def split: option.splits)

lemma allConnected_createShape:
  "allConnected st \<Longrightarrow> allConnected (snd (createShapeForPlayer st pid c now e))"
  by (auto simp: createShapeForPlayer_def Let_def addShape_def split: option.splits
      intro!: allConnected_modifyPlayer)

lemma allConnected_resetPlayers:
  "resetPlayers rnd now bw bh ps k = (ps', bs, k') \<Longrightarrow>
   list_all (\<lambda>(k, p). \<not> p_disconnected p) ps \<Longrightarrow> list_all (\<lambda>(k, p). \<not> p_disconnected p) ps'"
proof (induction ps arbitrary: k ps' bs k')
  case Nil
  then show ?case by simp
next
  case (Cons e ps)
  obtain pid p where e: "e = (pid, p)" by (cases e)
  obtain s1 b1 k1 where sh: "resetShapes rnd now bw bh pid (p_shapes p) k = (s1, b1, k1)"
    by (cases "resetShapes rnd now bw bh pid (p_shapes p) k") auto
  obtain r2 b2 k2 where rec: "resetPlayers rnd now bw bh ps k1 = (r2, b2, k2)"
    by (cases "resetPlayers rnd now bw bh ps k1") auto
  from Cons.prems e sh rec have res: "ps' = (pid, p\<lparr>p_shapes := s1\<rparr>) # r2"
    by simp
  from Cons.prems(2) e Cons.IH [OF rec] show ?case
    by (simp add: res)
qed

lemma allConnected_checkAndReset:
  assumes "allConnected (state r)"
  shows "allConnected (state (fst (checkAndResetOutOfBoundsShapes r rnd k now)))"
proof -
  obtain ps bs k' where rp:
    "resetPlayers rnd now (boundaryWidth (state r)) (boundaryHeight (state r))
       (players (state r)) k = (ps, bs, k')"
    by (cases "resetPlayers rnd now (boundaryWidth (state r)) (boundaryHeight (state r))
                 (players (state r)) k") auto
  from allConnected_resetPlayers [OF rp] assms rp show ?thesis
    by (simp add: checkAndResetOutOfBoundsShapes_def allConnected_def)
qed

lemma allConnected_onJoin:
  assumes "allConnected (state r)"
  shows "allConnected (state (fst (onJoin r sid opt now e)))"
proof -
  have j: "allConnected (state (joinNew r' sid' pid now e))" if "allConnected (state r')"
    for r' sid' pid
    using that allConnected_createPlayer [OF that, of pid now]
    by (auto simp: joinNew_def Let_def split: prod.splits intro!: allConnected_createShape)
  have m: "allConnected (snd (markPlayerConnected (state r') pid True now))"
    if "allConnected (state r')" for r' pid
    using that
    by (auto simp: markPlayerConnected_def setConnectionStatus_def split: option.splits
        intro!: allConnected_modifyPlayer)
  have c: "allConnected (state (reconnect r' sid pid now e))" if "allConnected (state r')"
    for r' pid
    using m [OF that, of pid]
    by (auto simp: reconnect_def Let_def split: option.splits
        intro!: allConnected_createShape allConnected_modifyPlayer)
  from assms have "allConnected (state (r\<lparr>lastActivityTime := now\<rparr>))" by simp
  with j c show ?thesis
    by (auto simp: onJoin_def Let_def split: option.splits)
qed

lemma allConnected_onLeave:
  assumes "allConnected (state r)"
  shows "allConnected (state (fst (onLeave r sid now)))"
proof -
  have "allConnected (snd (removePlayer
          (modifyPlayer pid (\<lambda>p. removeAllShapes p now) (state r)) pid))" for pid
    using assms by (intro allConnected_removePlayer allConnected_modifyPlayer) simp_all
  with assms show ?thesis
    by (auto simp: onLeave_def Let_def split: option.splits)
qed

lemma allConnected_step:
  assumes a: "allConnected (state r)"
  shows "allConnected (state (fst (step r ev)))"
proof (cases ev)
  case (Join sid opt now e)
  with allConnected_onJoin [OF a] show ?thesis by simp
next
  case (Leave sid now)
  with allConnected_onLeave [OF a] show ?thesis by simp
next
  case (ShapeUpdateMsg sid shapes now)
  with a show ?thesis
    by (auto simp: handleShapeUpdate_def split: option.splits intro!: allConnected_modifyPlayer)
next
  case (PhysicsActionEv sid msg now)
  with a show ?thesis
    by (auto simp: handlePhysicsAction_def acceptAction_def split: option.splits
        intro!: allConnected_modifyPlayer)
next
  case (CreateShape sid now e)
  with a show ?thesis
    by (auto simp: handleCreateShape_def split: option.splits intro!: allConnected_createShape)
next
  case (RemoveShape sid shapeId now)
  with a show ?thesis
    by (auto simp: handleRemoveShape_def split: option.splits intro!: allConnected_modifyPlayer)
next
  case (ChangeBlockColor sid color now)
  with a show ?thesis
    by (auto simp: handleChangeBlockColor_def split: option.splits
        intro!: allConnected_modifyPlayer)
next
  case (Ping now)
  with a show ?thesis by simp
next
  case (ClockTick now)
  with a show ?thesis by simp
next
  case (SimulationTick now)
  from a have "allConnected ((state r)\<lparr>serverTime := now\<rparr>)" by simp
  from this allConnected_cleanup [OF this] SimulationTick show ?thesis
    by (simp add: update_def Let_def)
next
  case (BoundaryTick rnd k now)
  with allConnected_checkAndReset [OF a, of rnd k now] show ?thesis
    by (cases "checkAndResetOutOfBoundsShapes r rnd k now") simp
next
  case (UpdateTick dt rnd k now)
  obtain r' bs k' where t: "checkAndResetOutOfBoundsShapes r rnd k now = (r', bs, k')"
    by (cases "checkAndResetOutOfBoundsShapes r rnd k now") auto
  from allConnected_checkAndReset [OF a, of rnd k now] t have a': "allConnected (state r')"
    by simp
  from a a' allConnected_cleanup [OF a] allConnected_cleanup [OF a'] UpdateTick show ?thesis
    by (simp add: onUpdate_def t)
qed

lemma allConnected_run: "allConnected (state r) \<Longrightarrow> allConnected (state (run r evs))"
  by (induction evs arbitrary: r) (simp_all add: allConnected_step)

lemma run_no_grace_state:
  "allConnected (state (run (newRoom t0) evs))"
  "cleanupInactivePlayers (state (run (newRoom t0) evs)) m now = (0, state (run (newRoom t0) evs))"
proof -
  show a: "allConnected (state (run (newRoom t0) evs))"
    by (intro allConnected_run) (simp add: newRoom_def allConnected_def)
  then have "filter (\<lambda>(k, p). inactive m now p) (players (state (run (newRoom t0) evs))) = []"
    by (auto simp: allConnected_def list_all_iff inactive_def filter_empty_conv)
  then show "cleanupInactivePlayers (state (run (newRoom t0) evs)) m now =
               (0, state (run (newRoom t0) evs))"
    by (simp add: cleanupInactivePlayers_def playersToRemove_def)
qed

end
